theory Spec2Isabelle
  imports Main "HOL-Library.Sublist" "HOL-Library.Multiset"
begin

section \<open>Data model (app/models/news.py)\<close>

text \<open>
  Timestamps (\<open>datetime\<close> values, all naive in this code base) and readings of the
  cache timer are integers on one time axis; only their order and the sum
  \<open>time + ttl\<close> are used.

  \<open>NewsArticle\<close>: the fields the service reads. The field \<open>a_source\<close> is
  \<open>article.source.id\<close>. Record fields carry the prefix of their class
  (\<open>a_\<close> for NewsArticle, \<open>f_\<close> for NewsFeed, \<open>s_\<close> for BaseScraper)
  because the three classes share attribute names.
\<close>

record news_article =
  a_id :: string
  a_title :: string
  a_url :: string
  a_published_at :: int
  a_source :: string
  a_category :: string
  a_likes_count :: "int option"

record news_feed =
  f_articles :: "news_article list"
  f_category :: string
  f_page :: int
  f_limit :: int
  f_total :: int
  f_last_updated :: int

text \<open>
  The exceptions that occur. \<open>AdapterError\<close> stands for what an upstream call raises
  (a network error, a timeout, a malformed payload). All of them derive from
  \<open>Exception\<close> except \<open>asyncio.CancelledError\<close>, which derives from
  \<open>BaseException\<close> only, so that \<open>except Exception\<close> does not catch it.
\<close>

datatype exn = KeyError | TypeError | ZeroDivisionError | AdapterError string | CancelledError

definition is_Exception :: "exn \<Rightarrow> bool" where
  "is_Exception e = (e \<noteq> CancelledError)"

section \<open>Source adapters (app/scrapers/base.py)\<close>

text \<open>
  An adapter is a black box that talks to its upstream. The first argument of
  both capabilities is the time of the call: it stands for the state of the
  upstream at that moment, so two calls at different times may answer
  differently. Awaiting \<open>fetch_articles\<close> gives a list of articles (\<open>Inr\<close>) or
  gives none (\<open>Inl\<close>): the call raises, or it returns a value that is no list,
  such as \<open>None\<close>, which the annotation of the method does not prevent.
  \<open>fetch_article_content\<close> raises (\<open>Inl\<close>) or returns (\<open>Inr\<close>).
\<close>

datatype no_list = Raises exn | Returns_no_list

record scraper =
  s_source_id :: string
  s_category :: string
  s_fetch_articles :: "int \<Rightarrow> int \<Rightarrow> no_list + news_article list"
  s_fetch_article_content :: "int \<Rightarrow> string \<Rightarrow> exn + string option"

type_synonym registry = "(string \<times> scraper) list"

text \<open>\<open>BaseScraper.generate_article_id\<close>: the hex digest of the URL; the digest
  function of \<open>hashlib\<close> is a parameter.\<close>

definition generate_article_id :: "(string \<Rightarrow> string) \<Rightarrow> string \<Rightarrow> string" where
  "generate_article_id md5_hexdigest article_url = md5_hexdigest article_url"

section \<open>Python primitives used by the service\<close>

text \<open>\<open>str(n)\<close> for an integer, as an f-string renders it.\<close>

definition digit_char :: "nat \<Rightarrow> char" where
  "digit_char d = ''0123456789'' ! d"

function str_nat :: "nat \<Rightarrow> string" where
  "str_nat n = (if n < 10 then [digit_char n] else str_nat (n div 10) @ [digit_char (n mod 10)])"
  by pat_completeness auto
termination
  by (relation "measure (\<lambda>n. n)") auto

declare str_nat.simps [simp del]

definition str_int :: "int \<Rightarrow> string" where
  "str_int i = (if i < 0 then CHR ''-'' # str_nat (nat (- i)) else str_nat (nat i))"

text \<open>\<open>xs[start:stop]\<close>: negative bounds count from the end, both are clamped.\<close>

definition py_slice :: "'a list \<Rightarrow> int \<Rightarrow> int \<Rightarrow> 'a list" where
  "py_slice xs start stop =
     (let n = int (length xs);
          lo = (if start < 0 then max (start + n) 0 else min start n);
          hi = (if stop < 0 then max (stop + n) 0 else min stop n)
      in take (nat (hi - lo)) (drop (nat lo) xs))"

text \<open>\<open>xs.sort(key=key, reverse=True)\<close>: the list is reversed, sorted by a stable
  ascending sort, and reversed again.\<close>

definition sort_reverse :: "('a \<Rightarrow> int) \<Rightarrow> 'a list \<Rightarrow> 'a list" where
  "sort_reverse key xs = rev (sort_key key (rev xs))"

text \<open>\<open>s.startswith(p)\<close>.\<close>

definition startswith :: "string \<Rightarrow> string \<Rightarrow> bool" where
  "startswith s p = (take (length p) s = p)"

text \<open>\<open>"-" in s\<close> and the first component of \<open>s.split("-", 1)\<close>.\<close>

definition has_dash :: "string \<Rightarrow> bool" where
  "has_dash s = (CHR ''-'' \<in> set s)"

definition split_source_id :: "string \<Rightarrow> string" where
  "split_source_id s = takeWhile (\<lambda>c. c \<noteq> CHR ''-'') s"

text \<open>\<open>await asyncio.gather(*tasks)\<close>: the list of results in task order, or the
  exception of a task that raised. When several tasks raise, \<open>gather\<close> raises the
  exception that comes first in time; the earliest in task order stands for it.\<close>

fun gather :: "(exn + 'a) list \<Rightarrow> exn + 'a list" where
  "gather [] = Inr []"
| "gather (r # rs) =
     (case r of
        Inl e \<Rightarrow> Inl e
      | Inr x \<Rightarrow> (case gather rs of Inl e \<Rightarrow> Inl e | Inr xs \<Rightarrow> Inr (x # xs)))"

text \<open>What awaiting the coroutine of \<open>fetch_articles\<close> does: it raises, or its value is
  a list (\<open>Some\<close>) or something else (\<open>None\<close>).\<close>

fun awaited :: "no_list + 'a \<Rightarrow> exn + 'a option" where
  "awaited (Inl (Raises e)) = Inl e"
| "awaited (Inl Returns_no_list) = Inr None"
| "awaited (Inr x) = Inr (Some x)"

text \<open>\<open>for article_list in article_lists: all_articles.extend(article_list)\<close>:
  \<open>extend\<close> raises \<open>TypeError\<close> on a value that is not iterable.\<close>

fun extend_all :: "'a list option list \<Rightarrow> exn + 'a list" where
  "extend_all [] = Inr []"
| "extend_all (None # rest) = Inl TypeError"
| "extend_all (Some article_list # rest) =
     (case extend_all rest of Inl e \<Rightarrow> Inl e | Inr all_articles \<Rightarrow> Inr (article_list @ all_articles))"

section \<open>The adapters and the registry (app/scrapers)\<close>

text \<open>
  \<open>fetch_articles\<close> of each adapter is a function of what its upstream answers.
  An HTTP request raises (\<open>Inl\<close>) or gives a status and the decoded body
  (\<open>Inr\<close>). Decoding the body (JSON, or the rows that BeautifulSoup selects from
  the page), the digest of \<open>hashlib\<close>, and the validation that pydantic performs
  when a \<open>NewsArticle\<close> or an \<open>Author\<close> is constructed belong to libraries: the
  decoded body, \<open>md5_hexdigest\<close> and the predicate \<open>validates\<close> are parameters.
  An hour is 3600 units of time.
\<close>

text \<open>\<open>except Exception: return []\<close>.\<close>

definition caught :: "exn \<Rightarrow> exn + 'a list" where
  "caught e = (if is_Exception e then Inr [] else Inl e)"

text \<open>What the coroutine of an adapter that returns a list or raises produces.\<close>

definition raised :: "exn + 'a \<Rightarrow> no_list + 'a" where
  "raised r = (case r of Inl e \<Rightarrow> Inl (Raises e) | Inr x \<Rightarrow> Inr x)"

text \<open>\<open>x.get(key, 0)\<close> and \<open>x or 0\<close> on an optional integer.\<close>

definition or_0 :: "int option \<Rightarrow> int" where
  "or_0 v = (case v of None \<Rightarrow> 0 | Some n \<Rightarrow> n)"

subsection \<open>Hacker News (hacker_news.py)\<close>

text \<open>A story as the item endpoint gives it; a key that is missing is \<open>None\<close>.\<close>

record hn_story =
  story_id :: "int option"
  story_title :: "string option"
  story_url :: "string option"
  story_time :: "int option"
  story_score :: "int option"

text \<open>The answers to \<open>GET topstories.json\<close> and to \<open>GET item/<id>.json\<close>; the body
  of an item is a story or \<open>null\<close>.\<close>

record hn_upstream =
  hn_topstories :: "exn + int \<times> int list"
  hn_item :: "int \<Rightarrow> exn + int \<times> hn_story option"

text \<open>The body of the loop over the stories: the story gives an article, or it is
  skipped (no URL, a key missing, or the validation failing).\<close>

definition hn_article :: "(hn_story \<Rightarrow> bool) \<Rightarrow> hn_story option \<Rightarrow> news_article option" where
  "hn_article validates story =
     (case story of
        None \<Rightarrow> None
      | Some s \<Rightarrow>
          (case story_url s of
             None \<Rightarrow> None
           | Some url \<Rightarrow>
               if url = [] then None
               else (case (story_id s, story_title s, story_time s) of
                       (Some i, Some title, Some time) \<Rightarrow>
                         if validates s
                         then Some \<lparr>a_id = ''hn-'' @ str_int i, a_title = title, a_url = url,
                                     a_published_at = time, a_source = ''hacker_news'',
                                     a_category = ''technology'',
                                     a_likes_count = Some (or_0 (story_score s))\<rparr>
                         else None
                     | _ \<Rightarrow> None)))"

definition hn_fetch_articles ::
  "(hn_story \<Rightarrow> bool) \<Rightarrow> hn_upstream \<Rightarrow> int \<Rightarrow> exn + news_article list"
where
  "hn_fetch_articles validates upstream limit =
     (case hn_topstories upstream of
        Inl e \<Rightarrow> caught e
      | Inr (status, ids) \<Rightarrow>
          if status \<noteq> 200 then Inr []
          else
            (let story_ids = py_slice ids 0 limit
             in case gather (map (hn_item upstream) story_ids) of
                  Inl e \<Rightarrow> caught e
                | Inr responses \<Rightarrow>
                    (let stories = map snd (filter (\<lambda>response. fst response = 200) responses)
                     in Inr (List.map_filter (hn_article validates) stories))))"

definition HackerNewsScraper ::
  "(hn_story \<Rightarrow> bool) \<Rightarrow> (int \<Rightarrow> hn_upstream) \<Rightarrow> (int \<Rightarrow> string \<Rightarrow> exn + string option) \<Rightarrow> scraper"
where
  "HackerNewsScraper validates upstream content =
     \<lparr>s_source_id = ''hacker_news'', s_category = ''technology'',
      s_fetch_articles = (\<lambda>now limit. raised (hn_fetch_articles validates (upstream now) limit)),
      s_fetch_article_content = content\<rparr>"

subsection \<open>Reddit (reddit.py)\<close>

definition get_category_for_subreddit :: "string \<Rightarrow> string" where
  "get_category_for_subreddit subreddit =
     (case map_of [(''worldnews'', ''world''), (''technology'', ''technology''),
                   (''science'', ''science''), (''politics'', ''world''),
                   (''business'', ''business'')] subreddit of
        Some c \<Rightarrow> c
      | None \<Rightarrow> ''realtime'')"

text \<open>The \<open>data\<close> of a child of the listing; \<open>is_self\<close> and \<open>selftext\<close> with the
  defaults of their \<open>get\<close>.\<close>

record reddit_post =
  post_id :: "string option"
  post_title :: "string option"
  post_url :: "string option"
  post_is_self :: bool
  post_selftext :: string
  post_permalink :: "string option"
  post_created_utc :: "int option"
  post_score :: "int option"

text \<open>The construction of the article of a post that is not skipped: \<open>None\<close> when
  it raises (a key missing, no URL, or the validation failing). The f-string
  renders a missing permalink as \<open>None\<close>.\<close>

definition reddit_article ::
  "(reddit_post \<Rightarrow> bool) \<Rightarrow> string \<Rightarrow> reddit_post \<Rightarrow> news_article option"
where
  "reddit_article validates subreddit p =
     (let url = (if post_is_self p
                 then Some (''https://www.reddit.com''
                            @ (case post_permalink p of None \<Rightarrow> ''None'' | Some l \<Rightarrow> l))
                 else post_url p)
      in case (post_id p, post_title p, url, post_created_utc p) of
           (Some i, Some title, Some u, Some created) \<Rightarrow>
             if validates p
             then Some \<lparr>a_id = ''reddit-'' @ i, a_title = title, a_url = u,
                         a_published_at = created, a_source = ''reddit-'' @ subreddit,
                         a_category = get_category_for_subreddit subreddit,
                         a_likes_count = Some (or_0 (post_score p))\<rparr>
             else None
         | _ \<Rightarrow> None)"

text \<open>The loop of \<open>fetch_subreddit\<close> over the posts. It runs inside the \<open>try\<close>
  block, so the first post whose article cannot be built ends it, and the articles
  appended before are returned.\<close>

fun reddit_articles ::
  "(reddit_post \<Rightarrow> bool) \<Rightarrow> string \<Rightarrow> reddit_post list \<Rightarrow> news_article list"
where
  "reddit_articles validates subreddit [] = []"
| "reddit_articles validates subreddit (p # posts) =
     (if post_is_self p \<and> length (post_selftext p) < 100
      then reddit_articles validates subreddit posts
      else if (post_url p = None \<or> post_url p = Some []) \<and> post_selftext p = []
      then reddit_articles validates subreddit posts
      else (case reddit_article validates subreddit p of
              None \<Rightarrow> []
            | Some article \<Rightarrow> article # reddit_articles validates subreddit posts))"

text \<open>\<open>listing subreddit n\<close> is the answer to
  \<open>GET /r/<subreddit>/top.json?limit=<n>&t=day\<close>.\<close>

definition fetch_subreddit ::
  "(reddit_post \<Rightarrow> bool) \<Rightarrow> (string \<Rightarrow> int \<Rightarrow> exn + int \<times> reddit_post list) \<Rightarrow> int \<Rightarrow> string
     \<Rightarrow> exn + news_article list"
where
  "fetch_subreddit validates listing posts_per_subreddit subreddit =
     (case listing subreddit posts_per_subreddit of
        Inl e \<Rightarrow> caught e
      | Inr (status, posts) \<Rightarrow>
          if status \<noteq> 200 then Inr [] else Inr (reddit_articles validates subreddit posts))"

text \<open>\<open>limit // len(self.subreddits)\<close> stands before the \<open>try\<close> block.\<close>

definition reddit_fetch_articles ::
  "(reddit_post \<Rightarrow> bool) \<Rightarrow> (string \<Rightarrow> int \<Rightarrow> exn + int \<times> reddit_post list) \<Rightarrow> string list \<Rightarrow> int
     \<Rightarrow> exn + news_article list"
where
  "reddit_fetch_articles validates listing subreddits limit =
     (if subreddits = [] then Inl ZeroDivisionError
      else
        (let posts_per_subreddit = max (limit div int (length subreddits)) 3
         in case gather (map (fetch_subreddit validates listing posts_per_subreddit) subreddits) of
              Inl e \<Rightarrow> caught e
            | Inr subreddit_results \<Rightarrow>
                Inr (py_slice
                       (sort_reverse (\<lambda>x. or_0 (a_likes_count x)) (concat subreddit_results))
                       0 limit)))"

text \<open>\<open>RedditScraper(subreddit)\<close>; \<open>SUBREDDITS\<close> is
  \<open>settings.NEWS_SOURCES["reddit"]["subreddits"]\<close>.\<close>

definition RedditScraper ::
  "string option \<Rightarrow> string list \<Rightarrow> (reddit_post \<Rightarrow> bool)
     \<Rightarrow> (int \<Rightarrow> string \<Rightarrow> int \<Rightarrow> exn + int \<times> reddit_post list)
     \<Rightarrow> (int \<Rightarrow> string \<Rightarrow> exn + string option) \<Rightarrow> scraper"
where
  "RedditScraper subreddit SUBREDDITS validates listing content =
     (if subreddit \<noteq> None \<and> subreddit \<noteq> Some []
      then \<lparr>s_source_id = ''reddit_'' @ the subreddit,
            s_category = get_category_for_subreddit (the subreddit),
            s_fetch_articles =
              (\<lambda>now limit. raised (reddit_fetch_articles validates (listing now)
                                      [the subreddit] limit)),
            s_fetch_article_content = content\<rparr>
      else \<lparr>s_source_id = ''reddit'', s_category = ''realtime'',
            s_fetch_articles =
              (\<lambda>now limit. raised (reddit_fetch_articles validates (listing now)
                                      SUBREDDITS limit)),
            s_fetch_article_content = content\<rparr>)"

subsection \<open>GitHub Trending (github_trending.py)\<close>

text \<open>\<open>s.strip()\<close>, \<open>s.strip('/')\<close>, \<open>s.split('/')\<close>,
  \<open>''.join(filter(str.isdigit, s))\<close> and \<open>int\<close> of a string of digits.\<close>

definition is_space :: "char \<Rightarrow> bool" where
  "is_space c = (c \<in> set [CHR '' '', CHR 0x09, CHR 0x0A, CHR 0x0B, CHR 0x0C, CHR 0x0D])"

definition strip_where :: "(char \<Rightarrow> bool) \<Rightarrow> string \<Rightarrow> string" where
  "strip_where P s = rev (dropWhile P (rev (dropWhile P s)))"

fun py_split :: "char \<Rightarrow> string \<Rightarrow> string list" where
  "py_split sep [] = [[]]"
| "py_split sep (c # cs) =
     (if c = sep then [] # py_split sep cs
      else (case py_split sep cs of
              [] \<Rightarrow> [[c]]
            | part # parts \<Rightarrow> (c # part) # parts))"

definition is_digit :: "char \<Rightarrow> bool" where
  "is_digit c = (c \<in> set ''0123456789'')"

definition int_of_digits :: "string \<Rightarrow> int" where
  "int_of_digits ds = foldl (\<lambda>n c. 10 * n + (int (of_char c) - 48)) 0 ds"

text \<open>A row \<open>article.Box-row\<close> of the page: the \<open>href\<close> of its \<open>h2 a\<close> element
  (\<open>None\<close> when the element or the attribute is missing) and the text of its
  stars element (\<open>None\<close> when there is none).\<close>

record gh_row =
  row_href :: "string option"
  row_stars :: "string option"

text \<open>The body of the loop over the rows, for the row at index \<open>fst entry\<close>: the
  row gives an article, or it is skipped.\<close>

definition github_article ::
  "(string \<Rightarrow> string) \<Rightarrow> (gh_row \<Rightarrow> bool) \<Rightarrow> int \<Rightarrow> int \<times> gh_row \<Rightarrow> news_article option"
where
  "github_article md5_hexdigest validates now entry =
     (case row_href (snd entry) of
        None \<Rightarrow> None
      | Some href \<Rightarrow>
          (let repo_rel_path = strip_where is_space href;
               repo_url = ''https://github.com'' @ repo_rel_path;
               title_parts = py_split CHR ''/'' (strip_where (\<lambda>c. c = CHR ''/'') repo_rel_path);
               title = (if 2 \<le> length title_parts
                        then title_parts ! 0 @ ''/'' @ title_parts ! 1
                        else strip_where (\<lambda>c. c = CHR ''/'') repo_rel_path);
               digits = (case row_stars (snd entry) of
                           None \<Rightarrow> None
                         | Some stars_text \<Rightarrow> Some (filter is_digit (strip_where is_space stars_text)))
           in if digits = Some [] \<or> \<not> validates (snd entry) then None
              else Some \<lparr>a_id = ''github-'' @ generate_article_id md5_hexdigest repo_url,
                          a_title = title, a_url = repo_url,
                          a_published_at = now - 3600 * fst entry,
                          a_source = ''github_trending'', a_category = ''technology'',
                          a_likes_count =
                            Some (case digits of None \<Rightarrow> 0 | Some ds \<Rightarrow> int_of_digits ds)\<rparr>))"

text \<open>\<open>page\<close> is the answer to \<open>GET https://github.com/trending\<close>;
  \<open>for i, repo in enumerate(repos): if i >= limit: break\<close>.\<close>

definition github_fetch_articles ::
  "(string \<Rightarrow> string) \<Rightarrow> (gh_row \<Rightarrow> bool) \<Rightarrow> int \<Rightarrow> exn + int \<times> gh_row list \<Rightarrow> int
     \<Rightarrow> exn + news_article list"
where
  "github_fetch_articles md5_hexdigest validates now page limit =
     (case page of
        Inl e \<Rightarrow> caught e
      | Inr (status, repos) \<Rightarrow>
          if status \<noteq> 200 then Inr []
          else Inr (List.map_filter (github_article md5_hexdigest validates now)
                      (takeWhile (\<lambda>entry. fst entry < limit)
                         (zip (map int [0..<length repos]) repos))))"

definition GitHubTrendingScraper ::
  "(string \<Rightarrow> string) \<Rightarrow> (gh_row \<Rightarrow> bool) \<Rightarrow> (int \<Rightarrow> exn + int \<times> gh_row list)
     \<Rightarrow> (int \<Rightarrow> string \<Rightarrow> exn + string option) \<Rightarrow> scraper"
where
  "GitHubTrendingScraper md5_hexdigest validates page content =
     \<lparr>s_source_id = ''github_trending'', s_category = ''technology'',
      s_fetch_articles =
        (\<lambda>now limit. raised (github_fetch_articles md5_hexdigest validates now (page now) limit)),
      s_fetch_article_content = content\<rparr>"

subsection \<open>The registry (app/scrapers/__init__.py)\<close>

text \<open>\<open>d[k] = v\<close> on a dictionary, which keeps insertion order.\<close>

fun dict_set :: "('k \<times> 'v) list \<Rightarrow> 'k \<Rightarrow> 'v \<Rightarrow> ('k \<times> 'v) list" where
  "dict_set [] k v = [(k, v)]"
| "dict_set ((k', v') # d) k v =
     (if k' = k then (k, v) # d else (k', v') # dict_set d k v)"

text \<open>The part of \<open>settings.NEWS_SOURCES\<close> that \<open>init_scrapers\<close> reads.\<close>

record news_sources =
  hacker_news_enabled :: bool
  github_trending_enabled :: bool
  reddit_enabled :: bool
  reddit_subreddits :: "string list"

text \<open>\<open>init_scrapers\<close>, run once on the empty dictionary \<open>scrapers\<close>. The three
  arguments after the settings are the adapter objects the constructors return.\<close>

definition init_scrapers ::
  "news_sources \<Rightarrow> scraper \<Rightarrow> scraper \<Rightarrow> (string option \<Rightarrow> scraper) \<Rightarrow> registry"
where
  "init_scrapers NEWS_SOURCES hn gh reddit =
     (let d1 = (if hacker_news_enabled NEWS_SOURCES then dict_set [] ''hacker_news'' hn else []);
          d2 = (if github_trending_enabled NEWS_SOURCES
                then dict_set d1 ''github_trending'' gh else d1);
          d3 = (if reddit_enabled NEWS_SOURCES
                then fold (\<lambda>subreddit d. dict_set d (''reddit_'' @ subreddit) (reddit (Some subreddit)))
                       (reddit_subreddits NEWS_SOURCES) (dict_set d2 ''reddit'' (reddit None))
                else d2)
      in if d3 = [] then dict_set d3 ''hacker_news'' hn else d3)"

section \<open>The two caches\<close>

text \<open>
  Modelled from the spec: the class \<open>TTLCache\<close> of the library \<open>cachetools\<close>,
  which the service instantiates twice, is not part of the repository. The spec
  gives a cache entry as (key, value, insertion time), treats an entry whose age has
  reached the time-to-live as absent whether or not it has been evicted, and evicts
  the oldest-inserted entries first once the capacity is exceeded. Entries are kept
  oldest first; a read changes nothing.
\<close>

record ('k, 'v) ttl_cache =
  maxsize :: nat
  ttl :: int
  links :: "('k \<times> 'v \<times> int) list"

definition live :: "int \<Rightarrow> int \<Rightarrow> ('k \<times> 'v \<times> int) \<Rightarrow> bool" where
  "live ttl_v now e = (now < snd (snd e) + ttl_v)"

definition cache_contains :: "('k, 'v) ttl_cache \<Rightarrow> 'k \<Rightarrow> int \<Rightarrow> bool" where
  "cache_contains c k now =
     (case map_of (links c) k of
        None \<Rightarrow> False
      | Some (v, t) \<Rightarrow> now < t + ttl c)"

definition cache_getitem :: "('k, 'v) ttl_cache \<Rightarrow> 'k \<Rightarrow> int \<Rightarrow> exn + 'v" where
  "cache_getitem c k now =
     (case map_of (links c) k of
        None \<Rightarrow> Inl KeyError
      | Some (v, t) \<Rightarrow> if now < t + ttl c then Inr v else Inl KeyError)"

definition cache_setitem :: "('k, 'v) ttl_cache \<Rightarrow> 'k \<Rightarrow> 'v \<Rightarrow> int \<Rightarrow> ('k, 'v) ttl_cache" where
  "cache_setitem c k v now =
     (let kept = filter (\<lambda>e. fst e \<noteq> k) (filter (live (ttl c) now) (links c));
          room = drop (length kept + 1 - maxsize c) kept
      in c\<lparr>links := room @ [(k, v, now)]\<rparr>)"

section \<open>The service (app/services/news_service.py)\<close>

text \<open>
  The module-level state: \<open>news_cache\<close>, \<open>article_cache\<close>, and (for the statements
  about fan-out) the log of the \<open>fetch_articles\<close> calls made so far, each as the
  registry key of the adapter and the limit passed.
\<close>

record service_state =
  news_cache :: "(string, news_feed) ttl_cache"
  article_cache :: "(string, news_article) ttl_cache"
  fetch_log :: "(string \<times> int) list"

text \<open>\<open>news_cache = TTLCache(maxsize=100, ttl=settings.CACHE_EXPIRATION)\<close> and
  \<open>article_cache = TTLCache(maxsize=1000, ttl=settings.CACHE_EXPIRATION)\<close>.\<close>

definition init_state :: "int \<Rightarrow> service_state" where
  "init_state CACHE_EXPIRATION =
     \<lparr>news_cache = \<lparr>maxsize = 100, ttl = CACHE_EXPIRATION, links = []\<rparr>,
      article_cache = \<lparr>maxsize = 1000, ttl = CACHE_EXPIRATION, links = []\<rparr>,
      fetch_log = []\<rparr>"

definition cache_key :: "string \<Rightarrow> int \<Rightarrow> int \<Rightarrow> string" where
  "cache_key category page limit = category @ ''_'' @ str_int page @ ''_'' @ str_int limit"

text \<open>The loop over \<open>scrapers.items()\<close> that skips an adapter when
  \<open>category != "realtime" and scraper.category != category\<close>.\<close>

definition matching_scrapers :: "string \<Rightarrow> registry \<Rightarrow> registry" where
  "matching_scrapers category scrapers =
     filter (\<lambda>(scraper_id, scraper).
                \<not> (category \<noteq> ''realtime'' \<and> s_category scraper \<noteq> category)) scrapers"

definition empty_feed :: "string \<Rightarrow> int \<Rightarrow> int \<Rightarrow> int \<Rightarrow> news_feed" where
  "empty_feed category page limit wall =
     \<lparr>f_articles = [], f_category = category, f_page = page, f_limit = limit,
      f_total = 0, f_last_updated = wall\<rparr>"

text \<open>\<open>for article in paginated_articles: article_cache[article.id] = article\<close>.\<close>

fun cache_articles ::
  "news_article list \<Rightarrow> int \<Rightarrow> (string, news_article) ttl_cache \<Rightarrow> (string, news_article) ttl_cache"
where
  "cache_articles [] now c = c"
| "cache_articles (article # rest) now c =
     cache_articles rest now (cache_setitem c (a_id article) article now)"

text \<open>The body of the \<open>try\<close> block of \<open>get_news_feed\<close>. \<open>fetch_tasks\<close> holds
  what each started coroutine produces. The steps that can raise are \<open>gather\<close>
  and the loop that combines the results; sorting compares the publication times,
  which are all naive, and the cache holds entries of size 1 below a capacity of
  100 and 1000.\<close>

definition fan_out_merge ::
  "(no_list + news_article list) list \<Rightarrow> int \<Rightarrow> int \<Rightarrow> string \<Rightarrow> int \<Rightarrow> int \<Rightarrow> service_state
     \<Rightarrow> exn + (news_feed \<times> service_state)"
where
  "fan_out_merge fetch_tasks now wall category page limit st =
     (case gather (map awaited fetch_tasks) of
        Inl e \<Rightarrow> Inl e
      | Inr article_lists \<Rightarrow>
          (case extend_all article_lists of
             Inl e \<Rightarrow> Inl e
           | Inr combined \<Rightarrow>
          (let all_articles = sort_reverse a_published_at combined;
               start_idx = (page - 1) * limit;
               end_idx = start_idx + limit;
               paginated_articles = py_slice all_articles start_idx end_idx;
               feed = \<lparr>f_articles = paginated_articles, f_category = category,
                       f_page = page, f_limit = limit,
                       f_total = int (length all_articles), f_last_updated = wall\<rparr>
           in Inr (feed,
                   st\<lparr>news_cache :=
                        cache_setitem (news_cache st) (cache_key category page limit) feed now,
                      article_cache :=
                        cache_articles paginated_articles now (article_cache st)\<rparr>))))"

text \<open>
  \<open>NewsService.get_news_feed\<close>. \<open>now\<close> is the reading of the cache timer and
  \<open>wall\<close> the value of \<open>datetime.now()\<close> during the call. The result is the
  returned feed (\<open>Inr\<close>) or an exception that leaves the function (\<open>Inl\<close>),
  with the state after the call. The handler is \<open>except Exception\<close>.
\<close>

definition get_news_feed ::
  "registry \<Rightarrow> int \<Rightarrow> int \<Rightarrow> string \<Rightarrow> int \<Rightarrow> int \<Rightarrow> bool \<Rightarrow> service_state
     \<Rightarrow> (exn + news_feed) \<times> service_state"
where
  "get_news_feed scrapers now wall category page limit force_refresh st =
     (let key = cache_key category page limit in
      if \<not> force_refresh \<and> cache_contains (news_cache st) key now
      then (cache_getitem (news_cache st) key now, st)
      else
        (let selected = matching_scrapers category scrapers;
             fetch_tasks = map (\<lambda>(scraper_id, scraper). s_fetch_articles scraper now limit) selected
         in if fetch_tasks = []
            then (Inr (empty_feed category page limit wall), st)
            else
              (let st1 = st\<lparr>fetch_log := fetch_log st
                                @ map (\<lambda>(scraper_id, scraper). (scraper_id, limit)) selected\<rparr>
               in case fan_out_merge fetch_tasks now wall category page limit st1 of
                    Inl e \<Rightarrow>
                      if is_Exception e
                      then (Inr (empty_feed category page limit wall), st1)
                      else (Inl e, st1)
                  | Inr (feed, st2) \<Rightarrow> (Inr feed, st2))))"

text \<open>The test \<open>scraper_id == source_id or source_id.startswith(scraper_id)\<close>
  of \<open>get_article\<close> and \<open>get_article_content\<close>.\<close>

definition scraper_matches :: "string \<Rightarrow> string \<times> scraper \<Rightarrow> bool" where
  "scraper_matches source_id entry =
     (fst entry = source_id \<or> startswith source_id (fst entry))"

text \<open>\<open>for article in articles: if article.id == article_id: ...\<close>.\<close>

fun find_article :: "string \<Rightarrow> news_article list \<Rightarrow> news_article option" where
  "find_article article_id [] = None"
| "find_article article_id (article # rest) =
     (if a_id article = article_id then Some article else find_article article_id rest)"

text \<open>The loop of \<open>get_article\<close> over \<open>scrapers.items()\<close>. The call of
  \<open>fetch_articles\<close> is not inside a \<open>try\<close> block, and
  \<open>for article in articles\<close> raises \<open>TypeError\<close> on a value that is no list.\<close>

fun search_scrapers ::
  "registry \<Rightarrow> string \<Rightarrow> string \<Rightarrow> int \<Rightarrow> service_state
     \<Rightarrow> (exn + news_article option) \<times> service_state"
where
  "search_scrapers [] source_id article_id now st = (Inr None, st)"
| "search_scrapers ((scraper_id, scraper) # rest) source_id article_id now st =
     (if scraper_matches source_id (scraper_id, scraper)
      then
        (let st1 = st\<lparr>fetch_log := fetch_log st @ [(scraper_id, 50)]\<rparr>
         in case s_fetch_articles scraper now 50 of
              Inl (Raises e) \<Rightarrow> (Inl e, st1)
            | Inl Returns_no_list \<Rightarrow> (Inl TypeError, st1)
            | Inr articles \<Rightarrow>
                (case find_article article_id articles of
                   Some article \<Rightarrow>
                     (Inr (Some article),
                      st1\<lparr>article_cache :=
                            cache_setitem (article_cache st1) article_id article now\<rparr>)
                 | None \<Rightarrow> search_scrapers rest source_id article_id now st1))
      else search_scrapers rest source_id article_id now st)"

definition get_article ::
  "registry \<Rightarrow> int \<Rightarrow> string \<Rightarrow> bool \<Rightarrow> service_state
     \<Rightarrow> (exn + news_article option) \<times> service_state"
where
  "get_article scrapers now article_id force_refresh st =
     (if \<not> force_refresh \<and> cache_contains (article_cache st) article_id now
      then (case cache_getitem (article_cache st) article_id now of
              Inl e \<Rightarrow> (Inl e, st)
            | Inr article \<Rightarrow> (Inr (Some article), st))
      else if \<not> has_dash article_id then (Inr None, st)
      else search_scrapers scrapers (split_source_id article_id) article_id now st)"

text \<open>The loop of \<open>get_article_content\<close> over \<open>scrapers.items()\<close>: the first
  adapter whose key matches fetches the content.\<close>

fun route_content :: "registry \<Rightarrow> string \<Rightarrow> string \<Rightarrow> int \<Rightarrow> exn + string option" where
  "route_content [] source_id article_url now = Inr None"
| "route_content ((scraper_id, scraper) # rest) source_id article_url now =
     (if scraper_matches source_id (scraper_id, scraper)
      then s_fetch_article_content scraper now article_url
      else route_content rest source_id article_url now)"

definition get_article_content ::
  "registry \<Rightarrow> int \<Rightarrow> string \<Rightarrow> service_state \<Rightarrow> (exn + string option) \<times> service_state"
where
  "get_article_content scrapers now article_id st =
     (case get_article scrapers now article_id False st of
        (Inl e, st1) \<Rightarrow> (Inl e, st1)
      | (Inr None, st1) \<Rightarrow> (Inr None, st1)
      | (Inr (Some article), st1) \<Rightarrow>
          if \<not> has_dash article_id then (Inr None, st1)
          else (route_content scrapers (split_source_id article_id) (a_url article) now, st1))"

section \<open>The adapter of the test suite (tests/test_news_service.py)\<close>

text \<open>\<open>MockScraper\<close>: \<open>fetch_articles(limit)\<close> returns the articles
  \<open>0, \<dots>, limit - 1\<close>, each published at the time of the call.\<close>

definition mock_article :: "string \<Rightarrow> string \<Rightarrow> string \<Rightarrow> int \<Rightarrow> int \<Rightarrow> news_article" where
  "mock_article source_id source_name category now i =
     \<lparr>a_id = source_id @ ''-'' @ str_int i,
      a_title = ''Test article '' @ str_int i @ '' from '' @ source_name,
      a_url = ''https://example.com/'' @ source_id @ ''/article/'' @ str_int i,
      a_published_at = now, a_source = source_id, a_category = category,
      a_likes_count = Some 0\<rparr>"

definition MockScraper :: "string \<Rightarrow> string \<Rightarrow> string \<Rightarrow> scraper" where
  "MockScraper source_id source_name category =
     \<lparr>s_source_id = source_id, s_category = category,
      s_fetch_articles =
        (\<lambda>now limit. Inr (map (mock_article source_id source_name category now) [0..limit - 1])),
      s_fetch_article_content =
        (\<lambda>now article_url. Inr (Some (''Mock content for '' @ article_url)))\<rparr>"

text \<open>The fixture \<open>mock_scrapers\<close>.\<close>

definition mock_scrapers :: registry where
  "mock_scrapers =
     dict_set (dict_set [] ''mock1'' (MockScraper ''mock1'' ''Mock Source 1'' ''technology''))
       ''mock2'' (MockScraper ''mock2'' ''Mock Source 2'' ''world'')"

section \<open>Example adapters for the closed instances\<close>

text \<open>Adapters whose \<open>fetch_articles\<close> raises an error of the upstream, is
  cancelled, or returns \<open>None\<close>, and registries holding one of them next to an
  adapter of the test suite.\<close>

definition broken_scraper :: scraper where
  "broken_scraper =
     \<lparr>s_source_id = ''broken'', s_category = ''technology'',
      s_fetch_articles = (\<lambda>now limit. Inl (Raises (AdapterError ''timeout''))),
      s_fetch_article_content = (\<lambda>now article_url. Inr None)\<rparr>"

definition cancelled_scraper :: scraper where
  "cancelled_scraper =
     \<lparr>s_source_id = ''cancelled'', s_category = ''technology'',
      s_fetch_articles = (\<lambda>now limit. Inl (Raises CancelledError)),
      s_fetch_article_content = (\<lambda>now article_url. Inr None)\<rparr>"

definition no_list_scraper :: scraper where
  "no_list_scraper =
     \<lparr>s_source_id = ''nolist'', s_category = ''technology'',
      s_fetch_articles = (\<lambda>now limit. Inl Returns_no_list),
      s_fetch_article_content = (\<lambda>now article_url. Inr None)\<rparr>"

definition one_cancelled :: registry where
  "one_cancelled =
     [(''mock1'', MockScraper ''mock1'' ''Mock Source 1'' ''technology''),
      (''cancelled'', cancelled_scraper)]"

definition one_no_list :: registry where
  "one_no_list =
     [(''mock1'', MockScraper ''mock1'' ''Mock Source 1'' ''technology''),
      (''nolist'', no_list_scraper)]"

definition one_broken :: registry where
  "one_broken =
     [(''mock1'', MockScraper ''mock1'' ''Mock Source 1'' ''technology''),
      (''broken'', broken_scraper)]"

text \<open>An adapter that answers with a fixed list of articles and a fixed body, and
  articles that differ in identifier and publication time only.\<close>

definition example_article :: "string \<Rightarrow> int \<Rightarrow> news_article" where
  "example_article ident t =
     \<lparr>a_id = ident, a_title = ''Example'', a_url = ''https://example.com/'' @ ident,
      a_published_at = t, a_source = takeWhile (\<lambda>c. c \<noteq> CHR ''-'') ident,
      a_category = ''world'', a_likes_count = Some 0\<rparr>"

definition fixed_scraper :: "string \<Rightarrow> string \<Rightarrow> news_article list \<Rightarrow> string \<Rightarrow> scraper" where
  "fixed_scraper source_id category items body =
     \<lparr>s_source_id = source_id, s_category = category,
      s_fetch_articles = (\<lambda>now limit. Inr items),
      s_fetch_article_content = (\<lambda>now article_url. Inr (Some body))\<rparr>"

text \<open>An adapter whose upstream answers before time 5 and fails from then on.\<close>

definition flaky_scraper :: scraper where
  "flaky_scraper =
     \<lparr>s_source_id = ''flaky'', s_category = ''world'',
      s_fetch_articles =
        (\<lambda>now limit. if now < 5 then Inr [example_article ''flaky-1'' 0]
                     else Inl (Raises (AdapterError ''timeout''))),
      s_fetch_article_content = (\<lambda>now article_url. Inr None)\<rparr>"

definition flaky :: registry where
  "flaky = [(''flaky'', flaky_scraper)]"

definition two_sources :: registry where
  "two_sources =
     [(''srcA'', fixed_scraper ''srcA'' ''world''
                  [example_article ''srcA-1'' 1, example_article ''srcA-2'' 3] ''body A''),
      (''srcB'', fixed_scraper ''srcB'' ''world''
                  [example_article ''srcB-1'' 3, example_article ''srcB-2'' 2] ''body B'')]"

definition overlapping :: registry where
  "overlapping =
     [(''reddit'', fixed_scraper ''reddit'' ''realtime'' [] ''body of reddit''),
      (''reddit_worldnews'', fixed_scraper ''reddit_worldnews'' ''world''
                  [example_article ''reddit_worldnews-1'' 1] ''body of reddit_worldnews'')]"

text \<open>The default value of \<open>settings.NEWS_SOURCES\<close> (app/config/settings.py), and
  the registry it gives when Hacker News answers with two stories that have the
  same URL and the other upstreams answer with nothing.\<close>

definition NEWS_SOURCES :: news_sources where
  "NEWS_SOURCES =
     \<lparr>hacker_news_enabled = True, github_trending_enabled = True, reddit_enabled = True,
      reddit_subreddits = [''worldnews'', ''technology'', ''science'', ''politics'', ''business'']\<rparr>"

definition example_story :: "int \<Rightarrow> hn_story" where
  "example_story n =
     \<lparr>story_id = Some n, story_title = Some ''A story'',
      story_url = Some ''https://example.com/story'', story_time = Some 0,
      story_score = Some 7\<rparr>"

definition example_hn_upstream :: hn_upstream where
  "example_hn_upstream =
     \<lparr>hn_topstories = Inr (200, [1, 2]),
      hn_item = (\<lambda>n. Inr (200, Some (example_story n)))\<rparr>"

definition example_post :: reddit_post where
  "example_post =
     \<lparr>post_id = Some ''abc'', post_title = Some ''A post'',
      post_url = Some ''https://example.com/post'', post_is_self = False,
      post_selftext = [], post_permalink = Some ''/r/worldnews/comments/abc'',
      post_created_utc = Some 0, post_score = Some 3\<rparr>"

definition example_row :: gh_row where
  "example_row = \<lparr>row_href = Some ''/owner/repo'', row_stars = Some ''1,234''\<rparr>"

definition default_registry :: registry where
  "default_registry =
     init_scrapers NEWS_SOURCES
       (HackerNewsScraper (\<lambda>story. True) (\<lambda>now. example_hn_upstream)
                          (\<lambda>now article_url. Inr None))
       (GitHubTrendingScraper (\<lambda>url. url) (\<lambda>row. True) (\<lambda>now. Inr (200, []))
                              (\<lambda>now article_url. Inr None))
       (\<lambda>subreddit. RedditScraper subreddit (reddit_subreddits NEWS_SOURCES) (\<lambda>post. True)
                       (\<lambda>now sub n. Inr (200, [])) (\<lambda>now article_url. Inr None))"

section \<open>Shared lemmas\<close>

lemma gather_map_Inr: "gather (map Inr xs) = Inr xs"
  by (induction xs) auto

lemma gather_Inr_D: "gather rs = Inr xs \<Longrightarrow> rs = map Inr xs"
  by (induction rs arbitrary: xs) (auto split: sum.splits)

lemma awaited_Inr_Some_D: "awaited t = Inr (Some x) \<Longrightarrow> t = Inr x"
  by (cases t rule: awaited.cases) auto

lemma extend_all_map_Some: "extend_all (map Some xs) = Inr (concat xs)"
  by (induction xs) auto

lemma extend_all_Inr_D:
  "extend_all rs = Inr combined \<Longrightarrow> \<exists>xs. rs = map Some xs \<and> combined = concat xs"
proof (induction rs arbitrary: combined rule: extend_all.induct)
  case 1
  then show ?case by simp
next
  case (2 rest)
  then show ?case by simp
next
  case (3 article_list rest)
  from "3.prems" obtain tail where t: "extend_all rest = Inr tail"
    and c: "combined = article_list @ tail"
    by (auto split: sum.splits)
  from "3.IH" [OF t] obtain xs where "rest = map Some xs" "tail = concat xs" by blast
  then have "Some article_list # rest = map Some (article_list # xs)
      \<and> combined = concat (article_list # xs)"
    using c by simp
  then show ?case by (rule exI)
qed

lemma awaited_all_lists:
  "map awaited tasks = map Inr (map Some xs) \<Longrightarrow> tasks = map Inr xs"
proof (induction xs arbitrary: tasks)
  case Nil
  then show ?case by simp
next
  case (Cons x xs)
  then obtain t ts where ts: "tasks = t # ts" by (cases tasks) auto
  with Cons.prems have "awaited t = Inr (Some x)" "map awaited ts = map Inr (map Some xs)"
    by simp_all
  then show ?case using ts Cons.IH awaited_Inr_Some_D by simp
qed

lemma gather_awaited_lists: "gather (map awaited (map Inr xs)) = Inr (map Some xs)"
  by (induction xs) auto

text \<open>The \<open>try\<close> block ends normally exactly when every task gives a list.\<close>

lemma fan_out_merge_Inr:
  assumes "fan_out_merge tasks now wall category page limit st = Inr (feed, st2)"
  shows "\<exists>article_lists. tasks = map Inr article_lists
     \<and> feed = \<lparr>f_articles = py_slice (sort_reverse a_published_at (concat article_lists))
                                  ((page - 1) * limit) ((page - 1) * limit + limit),
               f_category = category, f_page = page, f_limit = limit,
               f_total = int (length (concat article_lists)), f_last_updated = wall\<rparr>
     \<and> st2 = st\<lparr>news_cache := cache_setitem (news_cache st) (cache_key category page limit) feed now,
                 article_cache := cache_articles (f_articles feed) now (article_cache st)\<rparr>"
proof (cases "gather (map awaited tasks)")
  case (Inl e)
  then show ?thesis using assms by (simp add: fan_out_merge_def)
next
  case (Inr results)
  show ?thesis
  proof (cases "extend_all results")
    case (Inl e)
    then show ?thesis using assms Inr by (simp add: fan_out_merge_def)
  next
    case combined: (Inr combined)
    then obtain article_lists where r: "results = map Some article_lists"
      and c: "combined = concat article_lists"
      using extend_all_Inr_D by blast
    from Inr have "map awaited tasks = map Inr results" by (rule gather_Inr_D)
    then have tasks: "tasks = map Inr article_lists"
      unfolding r by (rule awaited_all_lists)
    from Inr combined assms have
      "feed = \<lparr>f_articles = py_slice (sort_reverse a_published_at (concat article_lists))
                                  ((page - 1) * limit) ((page - 1) * limit + limit),
               f_category = category, f_page = page, f_limit = limit,
               f_total = int (length (concat article_lists)), f_last_updated = wall\<rparr>"
      by (simp add: fan_out_merge_def Let_def sort_reverse_def c)
    moreover from Inr combined assms have
      "st2 = st\<lparr>news_cache := cache_setitem (news_cache st) (cache_key category page limit) feed now,
                 article_cache := cache_articles (f_articles feed) now (article_cache st)\<rparr>"
      by (auto simp add: fan_out_merge_def Let_def)
    ultimately show ?thesis using tasks by blast
  qed
qed

lemma fan_out_merge_map_Inr:
  "\<exists>feed st2. fan_out_merge (map Inr article_lists) now wall category page limit st = Inr (feed, st2)"
  unfolding fan_out_merge_def gather_awaited_lists
  by (simp add: Let_def extend_all_map_Some)

text \<open>Whether and how the \<open>try\<close> block fails depends on the tasks alone.\<close>

lemma fan_out_merge_Inl_iff:
  "fan_out_merge tasks now wall category page limit st = Inl e
     \<longleftrightarrow> gather (map awaited tasks) = Inl e
         \<or> (\<exists>results. gather (map awaited tasks) = Inr results \<and> extend_all results = Inl e)"
  by (auto simp: fan_out_merge_def Let_def split: sum.splits)

lemma fan_out_merge_Inl_any_state:
  "fan_out_merge tasks now wall category page limit st = Inl e \<Longrightarrow>
   fan_out_merge tasks now2 wall2 category2 page2 limit2 st2 = Inl e"
  by (simp only: fan_out_merge_Inl_iff)

lemma fan_out_merge_Inl_nonempty:
  "fan_out_merge tasks now wall category page limit st = Inl e \<Longrightarrow> tasks \<noteq> []"
  by (auto simp: fan_out_merge_def Let_def)

lemma cache_getitem_live:
  "cache_contains c k now \<Longrightarrow> \<exists>v. cache_getitem c k now = Inr v"
  by (auto simp: cache_contains_def cache_getitem_def split: option.splits)

lemma cache_contains_mono:
  "cache_contains c k now2 \<Longrightarrow> now \<le> now2 \<Longrightarrow> cache_contains c k now"
  by (auto simp: cache_contains_def split: option.splits)

lemma get_news_feed_hit:
  "cache_contains (news_cache st) (cache_key category page limit) now \<Longrightarrow>
   get_news_feed scrapers now wall category page limit False st
     = (cache_getitem (news_cache st) (cache_key category page limit) now, st)"
  by (simp add: get_news_feed_def)

lemma no_match_empty_feed:
  "force_refresh \<or> \<not> cache_contains (news_cache st) (cache_key category page limit) now \<Longrightarrow>
   matching_scrapers category scrapers = [] \<Longrightarrow>
   get_news_feed scrapers now wall category page limit force_refresh st
     = (Inr (empty_feed category page limit wall), st)"
  by (auto simp: get_news_feed_def Let_def)

lemma fan_out_error_result:
  assumes fresh: "force_refresh \<or> \<not> cache_contains (news_cache st) (cache_key category page limit) now"
    and err: "fan_out_merge (map (\<lambda>(scraper_id, scraper). s_fetch_articles scraper now limit)
                          (matching_scrapers category scrapers))
                now wall category page limit st' = Inl e"
  shows "get_news_feed scrapers now wall category page limit force_refresh st
           = (if is_Exception e then Inr (empty_feed category page limit wall) else Inl e,
              st\<lparr>fetch_log := fetch_log st
                    @ map (\<lambda>(scraper_id, scraper). (scraper_id, limit))
                        (matching_scrapers category scrapers)\<rparr>)"
proof -
  let ?sel = "matching_scrapers category scrapers"
  let ?st1 = "st\<lparr>fetch_log := fetch_log st
                    @ map (\<lambda>(scraper_id, scraper). (scraper_id, limit)) ?sel\<rparr>"
  have e1: "fan_out_merge (map (\<lambda>(scraper_id, scraper). s_fetch_articles scraper now limit) ?sel)
                now wall category page limit ?st1 = Inl e"
    using err by (rule fan_out_merge_Inl_any_state)
  have "?sel \<noteq> []"
    using fan_out_merge_Inl_nonempty [OF err] by simp
  with e1 fresh show ?thesis
    by (auto simp: get_news_feed_def Let_def)
qed

lemma get_news_feed_fetch_log:
  "force_refresh \<or> \<not> cache_contains (news_cache st) (cache_key category page limit) now \<Longrightarrow>
   fetch_log (snd (get_news_feed scrapers now wall category page limit force_refresh st))
     = fetch_log st @ map (\<lambda>(scraper_id, scraper). (scraper_id, limit))
                        (matching_scrapers category scrapers)"
proof -
  assume fresh: "force_refresh \<or> \<not> cache_contains (news_cache st) (cache_key category page limit) now"
  let ?sel = "matching_scrapers category scrapers"
  let ?tasks = "map (\<lambda>(scraper_id, scraper). s_fetch_articles scraper now limit) ?sel"
  let ?st1 = "st\<lparr>fetch_log := fetch_log st @ map (\<lambda>(scraper_id, scraper). (scraper_id, limit)) ?sel\<rparr>"
  show ?thesis
  proof (cases "?sel = []")
    case True
    then show ?thesis using fresh by (auto simp: get_news_feed_def Let_def)
  next
    case False
    show ?thesis
    proof (cases "fan_out_merge ?tasks now wall category page limit ?st1")
      case (Inl e)
      then show ?thesis using fresh False by (auto simp: get_news_feed_def Let_def)
    next
      case (Inr p)
      then have "fetch_log (snd p) = fetch_log ?st1"
        by (cases p) (auto simp: fan_out_merge_def Let_def split: sum.splits)
      then show ?thesis using fresh False Inr
        by (cases p) (auto simp: get_news_feed_def Let_def)
    qed
  qed
qed

lemma ttl_cache_setitem [simp]: "ttl (cache_setitem c k v now) = ttl c"
  by (simp add: cache_setitem_def Let_def)

lemma map_of_cache_setitem:
  "map_of (links (cache_setitem c k v now)) k = Some (v, now)"
proof -
  let ?kept = "filter (\<lambda>e. fst e \<noteq> k) (filter (live (ttl c) now) (links c))"
  let ?room = "drop (length ?kept + 1 - maxsize c) ?kept"
  have "k \<notin> fst ` set ?kept" by auto
  moreover have "set ?room \<subseteq> set ?kept" by (rule set_drop_subset)
  ultimately have "k \<notin> fst ` set ?room" by blast
  then have "map_of ?room k = None" by (simp add: map_of_eq_None_iff)
  then show ?thesis
    by (simp add: cache_setitem_def Let_def map_add_def)
qed

lemma cache_getitem_setitem:
  "now2 < now + ttl c \<Longrightarrow> cache_getitem (cache_setitem c k v now) k now2 = Inr v"
  by (simp add: cache_getitem_def map_of_cache_setitem)

lemma cache_contains_setitem:
  "cache_contains (cache_setitem c k v now) k now2 \<longleftrightarrow> now2 < now + ttl c"
  by (simp add: cache_contains_def map_of_cache_setitem)

lemma cache_getitem_same:
  "cache_contains c k now1 \<Longrightarrow> cache_contains c k now2 \<Longrightarrow>
   cache_getitem c k now2 = cache_getitem c k now1"
  by (auto simp: cache_contains_def cache_getitem_def split: option.splits)

lemma get_news_feed_cases:
  obtains
    (hit) "\<not> force_refresh" "cache_contains (news_cache st) (cache_key category page limit) now"
      "get_news_feed scrapers now wall category page limit force_refresh st
         = (cache_getitem (news_cache st) (cache_key category page limit) now, st)"
  | (no_match) "force_refresh \<or> \<not> cache_contains (news_cache st) (cache_key category page limit) now"
      "matching_scrapers category scrapers = []"
      "get_news_feed scrapers now wall category page limit force_refresh st
         = (Inr (empty_feed category page limit wall), st)"
  | (failed) e where
      "force_refresh \<or> \<not> cache_contains (news_cache st) (cache_key category page limit) now"
      "matching_scrapers category scrapers \<noteq> []"
      "fan_out_merge (map (\<lambda>(scraper_id, scraper). s_fetch_articles scraper now limit)
                          (matching_scrapers category scrapers)) now wall category page limit
          (st\<lparr>fetch_log := fetch_log st
                    @ map (\<lambda>(scraper_id, scraper). (scraper_id, limit))
                        (matching_scrapers category scrapers)\<rparr>) = Inl e"
      "get_news_feed scrapers now wall category page limit force_refresh st
           = (if is_Exception e then Inr (empty_feed category page limit wall) else Inl e,
              st\<lparr>fetch_log := fetch_log st
                    @ map (\<lambda>(scraper_id, scraper). (scraper_id, limit))
                        (matching_scrapers category scrapers)\<rparr>)"
  | (passed) feed st2 where
      "force_refresh \<or> \<not> cache_contains (news_cache st) (cache_key category page limit) now"
      "matching_scrapers category scrapers \<noteq> []"
      "fan_out_merge (map (\<lambda>(scraper_id, scraper). s_fetch_articles scraper now limit)
                          (matching_scrapers category scrapers)) now wall category page limit
          (st\<lparr>fetch_log := fetch_log st
                    @ map (\<lambda>(scraper_id, scraper). (scraper_id, limit))
                        (matching_scrapers category scrapers)\<rparr>) = Inr (feed, st2)"
      "get_news_feed scrapers now wall category page limit force_refresh st = (Inr feed, st2)"
proof (cases "\<not> force_refresh \<and> cache_contains (news_cache st) (cache_key category page limit) now")
  case True
  then show ?thesis using hit by (simp add: get_news_feed_def)
next
  case fresh: False
  then have fresh': "force_refresh \<or> \<not> cache_contains (news_cache st) (cache_key category page limit) now"
    by simp
  show ?thesis
  proof (cases "matching_scrapers category scrapers = []")
    case True
    then show ?thesis using no_match [OF fresh' True] no_match_empty_feed [OF fresh' True] by simp
  next
    case nonempty: False
    let ?tasks = "map (\<lambda>(scraper_id, scraper). s_fetch_articles scraper now limit)
                          (matching_scrapers category scrapers)"
    let ?st1 = "st\<lparr>fetch_log := fetch_log st
                    @ map (\<lambda>(scraper_id, scraper). (scraper_id, limit))
                        (matching_scrapers category scrapers)\<rparr>"
    show ?thesis
    proof (cases "fan_out_merge ?tasks now wall category page limit ?st1")
      case (Inl e)
      show ?thesis
        by (rule failed [OF fresh' nonempty Inl fan_out_error_result [OF fresh' Inl]])
    next
      case (Inr p)
      obtain feed st2 where p: "p = (feed, st2)" by (cases p)
      with Inr have fm: "fan_out_merge ?tasks now wall category page limit ?st1 = Inr (feed, st2)"
        by simp
      then have "get_news_feed scrapers now wall category page limit force_refresh st = (Inr feed, st2)"
        using fresh' nonempty by (auto simp: get_news_feed_def Let_def)
      then show ?thesis by (rule passed [OF fresh' nonempty fm])
    qed
  qed
qed

lemma get_news_feed_passed:
  assumes fresh: "force_refresh \<or> \<not> cache_contains (news_cache st) (cache_key category page limit) now"
    and tasks: "map (\<lambda>(scraper_id, scraper). s_fetch_articles scraper now limit)
                    (matching_scrapers category scrapers) = map Inr article_lists"
    and ne: "article_lists \<noteq> []"
  shows "\<exists>feed.
      feed = \<lparr>f_articles = py_slice (sort_reverse a_published_at (concat article_lists))
                                  ((page - 1) * limit) ((page - 1) * limit + limit),
               f_category = category, f_page = page, f_limit = limit,
               f_total = int (length (concat article_lists)), f_last_updated = wall\<rparr>
      \<and> get_news_feed scrapers now wall category page limit force_refresh st
          = (Inr feed,
             st\<lparr>fetch_log := fetch_log st
                    @ map (\<lambda>(scraper_id, scraper). (scraper_id, limit))
                        (matching_scrapers category scrapers),
                news_cache := cache_setitem (news_cache st) (cache_key category page limit) feed now,
                article_cache := cache_articles (f_articles feed) now (article_cache st)\<rparr>)"
proof (cases rule: get_news_feed_cases [where scrapers = scrapers and now = now and wall = wall
        and category = category and page = page and limit = limit
        and force_refresh = force_refresh and st = st])
  case hit
  with fresh show ?thesis by simp
next
  case no_match
  with tasks ne show ?thesis by simp
next
  case (failed e)
  from fan_out_merge_map_Inr [of article_lists] failed(3) tasks show ?thesis
    by (metis sum.distinct(1))
next
  case (passed feed st2)
  let ?tasks = "map (\<lambda>(scraper_id, scraper). s_fetch_articles scraper now limit)
                    (matching_scrapers category scrapers)"
  from fan_out_merge_Inr [OF passed(3)] obtain lists where
    l: "?tasks = map Inr lists"
    and feed: "feed = \<lparr>f_articles = py_slice (sort_reverse a_published_at (concat lists))
                                  ((page - 1) * limit) ((page - 1) * limit + limit),
               f_category = category, f_page = page, f_limit = limit,
               f_total = int (length (concat lists)), f_last_updated = wall\<rparr>"
    and st2: "st2 = st\<lparr>fetch_log := fetch_log st
                    @ map (\<lambda>(scraper_id, scraper). (scraper_id, limit))
                        (matching_scrapers category scrapers)\<rparr>
                 \<lparr>news_cache := cache_setitem
                     (news_cache (st\<lparr>fetch_log := fetch_log st
                    @ map (\<lambda>(scraper_id, scraper). (scraper_id, limit))
                        (matching_scrapers category scrapers)\<rparr>)) (cache_key category page limit) feed now,
                  article_cache := cache_articles (f_articles feed) now
                     (article_cache (st\<lparr>fetch_log := fetch_log st
                    @ map (\<lambda>(scraper_id, scraper). (scraper_id, limit))
                        (matching_scrapers category scrapers)\<rparr>))\<rparr>"
    by blast
  from l tasks have "map Inr lists = (map Inr article_lists :: (exn + news_article list) list)"
    by simp
  then have lists: "lists = article_lists"
    by (simp only: inj_map_eq_map [OF inj_Inr])
  have "get_news_feed scrapers now wall category page limit force_refresh st
          = (Inr feed,
             st\<lparr>fetch_log := fetch_log st
                    @ map (\<lambda>(scraper_id, scraper). (scraper_id, limit))
                        (matching_scrapers category scrapers),
                news_cache := cache_setitem (news_cache st) (cache_key category page limit) feed now,
                article_cache := cache_articles (f_articles feed) now (article_cache st)\<rparr>)"
    unfolding passed(4) st2 by simp
  with feed lists show ?thesis by blast
qed

lemma mock_tasks:
  "map (\<lambda>(scraper_id, scraper). s_fetch_articles scraper now 1)
       (matching_scrapers ''realtime'' mock_scrapers)
     = map Inr [[mock_article ''mock1'' ''Mock Source 1'' ''technology'' now 0],
                [mock_article ''mock2'' ''Mock Source 2'' ''world'' now 0]]"
  by (simp add: matching_scrapers_def mock_scrapers_def MockScraper_def upto.simps)

lemma init_miss: "\<not> cache_contains (news_cache (init_state ttl_v)) k now"
  by (simp add: cache_contains_def init_state_def)

lemma sort_reverse_sorted:
  "sorted_wrt (\<lambda>a b. key b \<le> key a) (sort_reverse key xs)"
proof -
  have "sorted (map key (sort_key key (rev xs)))" by (rule sorted_sort_key)
  then have "sorted_wrt (\<lambda>a b. key a \<le> key b) (sort_key key (rev xs))"
    by (simp only: sorted_map)
  then show ?thesis
    by (simp add: sort_reverse_def sorted_wrt_rev)
qed

lemma sort_reverse_mset: "mset (sort_reverse key xs) = mset xs"
  by (simp add: sort_reverse_def)

lemma sort_reverse_stable:
  "filter (\<lambda>a. key a = t) (sort_reverse key xs) = filter (\<lambda>a. key a = t) xs"
proof -
  have "filter (\<lambda>a. key a = t) (sort_reverse key xs)
          = rev (filter (\<lambda>a. key a = t) (sort_key key (rev xs)))"
    by (simp add: sort_reverse_def rev_filter)
  also have "\<dots> = rev (filter (\<lambda>a. key a = t) (rev xs))"
    by (simp only: sort_key_stable)
  also have "\<dots> = filter (\<lambda>a. key a = t) xs"
    by (simp add: rev_filter)
  finally show ?thesis .
qed

lemma py_slice_sorted:
  "sorted_wrt P xs \<Longrightarrow> sorted_wrt P (py_slice xs start stop)"
  by (simp add: py_slice_def Let_def)

lemma sorted_wrt_adjacent:
  "sorted_wrt P xs \<Longrightarrow> Suc i < length xs \<Longrightarrow> P (xs ! i) (xs ! Suc i)"
  by (rule sorted_wrt_nth_less) simp_all

lemma two_sources_tasks:
  "map (\<lambda>(scraper_id, scraper). s_fetch_articles scraper now limit)
       (matching_scrapers ''realtime'' two_sources)
     = map Inr [[example_article ''srcA-1'' 1, example_article ''srcA-2'' 3],
                [example_article ''srcB-1'' 3, example_article ''srcB-2'' 2]]"
  by (simp add: matching_scrapers_def two_sources_def fixed_scraper_def)

lemma two_sources_merged:
  "sort_reverse a_published_at
     [example_article ''srcA-1'' 1, example_article ''srcA-2'' 3,
      example_article ''srcB-1'' 3, example_article ''srcB-2'' 2]
   = [example_article ''srcA-2'' 3, example_article ''srcB-1'' 3,
      example_article ''srcB-2'' 2, example_article ''srcA-1'' 1]"
  by (simp add: sort_reverse_def example_article_def)

lemma matching_realtime: "matching_scrapers ''realtime'' scrapers = scrapers"
  by (simp add: matching_scrapers_def case_prod_unfold)

lemma py_slice_first_page:
  "0 \<le> limit \<Longrightarrow> py_slice xs ((1 - 1) * limit) ((1 - 1) * limit + limit) = take (nat limit) xs"
  by (auto simp: py_slice_def Let_def min_def)

lemma mock_scrapers_eq:
  "mock_scrapers = [(''mock1'', MockScraper ''mock1'' ''Mock Source 1'' ''technology''),
                    (''mock2'', MockScraper ''mock2'' ''Mock Source 2'' ''world'')]"
  by (simp add: mock_scrapers_def)

lemma MockScraper_fetch:
  "s_fetch_articles (MockScraper source_id source_name category) now limit
     = Inr (map (mock_article source_id source_name category now) [0..limit - 1])"
  by (simp add: MockScraper_def)

lemma MockScraper_category [simp]:
  "s_category (MockScraper source_id source_name category) = category"
  by (simp add: MockScraper_def)

lemma route_content_find:
  "route_content scrapers source_id article_url now
     = (case find (scraper_matches source_id) scrapers of
          None \<Rightarrow> Inr None
        | Some (scraper_id, scraper) \<Rightarrow> s_fetch_article_content scraper now article_url)"
  by (induction scrapers) auto

lemma search_scrapers_no_match:
  "find (scraper_matches source_id) scrapers = None \<Longrightarrow>
   search_scrapers scrapers source_id article_id now st = (Inr None, st)"
  by (induction scrapers) (auto split: if_splits)

lemma search_scrapers_first_match:
  "find (scraper_matches source_id) scrapers = Some (scraper_id, scraper) \<Longrightarrow>
   s_fetch_articles scraper now 50 = Inr items \<Longrightarrow>
   find_article article_id items = Some article \<Longrightarrow>
   fst (search_scrapers scrapers source_id article_id now st) = Inr (Some article)"
  by (induction scrapers) (auto split: if_splits simp: Let_def)

lemma get_article_no_match:
  assumes "find (scraper_matches (split_source_id article_id)) scrapers = None"
    and "force_refresh \<or> \<not> cache_contains (article_cache st) article_id now"
  shows "get_article scrapers now article_id force_refresh st = (Inr None, st)"
  using assms by (auto simp: get_article_def search_scrapers_no_match)

lemma get_article_hit:
  assumes "cache_contains (article_cache st) article_id now"
    and "cache_getitem (article_cache st) article_id now = Inr article"
  shows "get_article scrapers now article_id False st = (Inr (Some article), st)"
  using assms by (simp add: get_article_def)

lemma str_int_1: "str_int 1 = ''1''"
  by (simp add: str_int_def str_nat.simps digit_char_def)

lemma str_int_2: "str_int 2 = ''2''"
  by (simp add: str_int_def str_nat.simps digit_char_def)

lemma find_matches_keys:
  "find (scraper_matches source_id) scrapers = None
     \<longleftrightarrow> (\<forall>k \<in> set (map fst scrapers). \<not> (k = source_id \<or> startswith source_id k))"
  by (induction scrapers) (auto simp: scraper_matches_def)

lemma gather_Inl_mem: "gather rs = Inl e \<Longrightarrow> Inl e \<in> set rs"
  by (induction rs) (auto split: sum.splits)

lemma awaited_Inl_D: "awaited t = Inl e \<Longrightarrow> t = Inl (Raises e)"
  by (cases t rule: awaited.cases) auto

lemma extend_all_Inl_D: "extend_all rs = Inl e \<Longrightarrow> e = TypeError"
  by (induction rs rule: extend_all.induct) (auto split: sum.splits)

lemma gather_one_raises:
  "gather (map awaited (map Inr before @ Inl (Raises e) # rest)) = Inl e"
  by (induction before) auto

lemma fan_out_merge_one_raises:
  "fan_out_merge (map Inr before @ Inl (Raises e) # rest) now wall category page limit st = Inl e"
  unfolding fan_out_merge_def gather_one_raises by simp

text \<open>An exception of the \<open>try\<close> block that is not of class \<open>Exception\<close> was raised
  by an adapter.\<close>

lemma fan_out_merge_error_source:
  assumes "fan_out_merge tasks now wall category page limit st = Inl e"
  shows "e = TypeError \<or> Inl (Raises e) \<in> set tasks"
proof -
  from assms have "gather (map awaited tasks) = Inl e
      \<or> (\<exists>results. gather (map awaited tasks) = Inr results \<and> extend_all results = Inl e)"
    by (simp only: fan_out_merge_Inl_iff)
  then show ?thesis
  proof
    assume "gather (map awaited tasks) = Inl e"
    then have "Inl e \<in> set (map awaited tasks)" by (rule gather_Inl_mem)
    then obtain t where "t \<in> set tasks" "awaited t = Inl e" by auto
    then show ?thesis using awaited_Inl_D by auto
  next
    assume "\<exists>results. gather (map awaited tasks) = Inr results \<and> extend_all results = Inl e"
    then show ?thesis using extend_all_Inl_D by auto
  qed
qed

lemma one_broken_tasks:
  "map (\<lambda>(scraper_id, scraper). s_fetch_articles scraper now 1)
       (matching_scrapers ''realtime'' one_broken)
     = map Inr [map (mock_article ''mock1'' ''Mock Source 1'' ''technology'' now) [0..1 - 1]]
         @ Inl (Raises (AdapterError ''timeout'')) # map Inr []"
  by (simp add: matching_scrapers_def one_broken_def broken_scraper_def MockScraper_def)

lemma one_cancelled_tasks:
  "map (\<lambda>(scraper_id, scraper). s_fetch_articles scraper now 1)
       (matching_scrapers ''realtime'' one_cancelled)
     = map Inr [map (mock_article ''mock1'' ''Mock Source 1'' ''technology'' now) [0..1 - 1]]
         @ Inl (Raises CancelledError) # map Inr []"
  by (simp add: matching_scrapers_def one_cancelled_def cancelled_scraper_def MockScraper_def)

lemma one_no_list_fails:
  "fan_out_merge (map (\<lambda>(scraper_id, scraper). s_fetch_articles scraper now 1)
                      (matching_scrapers ''realtime'' one_no_list))
     now wall category page limit st = Inl TypeError"
  by (simp add: fan_out_merge_def matching_scrapers_def one_no_list_def no_list_scraper_def
        MockScraper_def)

lemma flaky_tasks_early:
  "now < 5 \<Longrightarrow>
   map (\<lambda>(scraper_id, scraper). s_fetch_articles scraper now limit)
       (matching_scrapers ''realtime'' flaky)
     = map Inr [[example_article ''flaky-1'' 0]]"
  by (simp add: matching_scrapers_def flaky_def flaky_scraper_def)

lemma flaky_tasks_late:
  "\<not> now < 5 \<Longrightarrow>
   map (\<lambda>(scraper_id, scraper). s_fetch_articles scraper now limit)
       (matching_scrapers ''realtime'' flaky)
     = map Inr [] @ Inl (Raises (AdapterError ''timeout'')) # map Inr []"
  by (simp add: matching_scrapers_def flaky_def flaky_scraper_def)

text \<open>The registry \<open>flaky\<close>: a pass at time 0, then a forced refresh at time 5 that
  fails, then a call at time 6.\<close>

lemma flaky_run:
  "\<exists>feed S1.
     get_news_feed flaky 0 0 ''realtime'' 1 1 False (init_state 1800) = (Inr feed, S1)
   \<and> news_cache S1 = cache_setitem (news_cache (init_state 1800)) (cache_key ''realtime'' 1 1) feed 0
   \<and> get_news_feed flaky 5 5 ''realtime'' 1 1 True S1
       = (Inr (empty_feed ''realtime'' 1 1 5),
          S1\<lparr>fetch_log := fetch_log S1
                @ map (\<lambda>(scraper_id, scraper). (scraper_id, 1))
                    (matching_scrapers ''realtime'' flaky)\<rparr>)
   \<and> get_news_feed flaky 6 6 ''realtime'' 1 1 False
        (S1\<lparr>fetch_log := fetch_log S1
                @ map (\<lambda>(scraper_id, scraper). (scraper_id, 1))
                    (matching_scrapers ''realtime'' flaky)\<rparr>)
       = (Inr feed,
          S1\<lparr>fetch_log := fetch_log S1
                @ map (\<lambda>(scraper_id, scraper). (scraper_id, 1))
                    (matching_scrapers ''realtime'' flaky)\<rparr>)"
proof -
  let ?key = "cache_key ''realtime'' 1 1"
  have fresh0: "False \<or> \<not> cache_contains (news_cache (init_state 1800)) ?key 0"
    using init_miss by simp
  have early: "map (\<lambda>(scraper_id, scraper). s_fetch_articles scraper 0 1)
       (matching_scrapers ''realtime'' flaky) = map Inr [[example_article ''flaky-1'' 0]]"
    by (rule flaky_tasks_early) simp
  have ne: "[[example_article ''flaky-1'' 0]] \<noteq> []" by simp
  from get_news_feed_passed [OF fresh0 early ne, where wall = 0]
  obtain feed S1 where
    G1: "get_news_feed flaky 0 0 ''realtime'' 1 1 False (init_state 1800) = (Inr feed, S1)"
    and nc: "news_cache S1 = cache_setitem (news_cache (init_state 1800)) ?key feed 0"
    by auto
  let ?S2 = "S1\<lparr>fetch_log := fetch_log S1
                @ map (\<lambda>(scraper_id, scraper). (scraper_id, 1))
                    (matching_scrapers ''realtime'' flaky)\<rparr>"
  have late: "map (\<lambda>(scraper_id, scraper). s_fetch_articles scraper 5 1)
       (matching_scrapers ''realtime'' flaky)
     = map Inr [] @ Inl (Raises (AdapterError ''timeout'')) # map Inr []"
    by (rule flaky_tasks_late) simp
  have err: "fan_out_merge (map (\<lambda>(scraper_id, scraper). s_fetch_articles scraper 5 1)
                                (matching_scrapers ''realtime'' flaky))
               5 5 ''realtime'' 1 1 S1 = Inl (AdapterError ''timeout'')"
    unfolding late by (rule fan_out_merge_one_raises)
  have forced: "True \<or> \<not> cache_contains (news_cache S1) ?key 5" by simp
  have G2: "get_news_feed flaky 5 5 ''realtime'' 1 1 True S1
       = (Inr (empty_feed ''realtime'' 1 1 5), ?S2)"
    using fan_out_error_result [OF forced err] by (simp add: is_Exception_def)
  have live: "cache_contains (news_cache ?S2) ?key 6"
    by (simp add: nc cache_contains_setitem init_state_def)
  have "cache_getitem (news_cache ?S2) ?key 6 = Inr feed"
    by (simp add: nc cache_getitem_setitem init_state_def)
  with get_news_feed_hit [OF live, of flaky 6]
  have G3: "get_news_feed flaky 6 6 ''realtime'' 1 1 False ?S2 = (Inr feed, ?S2)"
    by simp
  from G1 nc G2 G3 show ?thesis by blast
qed

section \<open>Identifiers without a separator\<close>

text \<open>
  Claim C10. For an article id without \<open>'-'\<close>, \<open>get_article\<close> leaves the state
  as it is (no adapter is called, no cache is written) and, when the id is not
  answered from the article cache, returns the absent value;
  \<open>get_article_content\<close> returns the absent value and leaves the state as it is.
\<close>

theorem dashless_article_id_is_absent:
  assumes nodash: "\<not> has_dash article_id"
  shows "snd (get_article scrapers now article_id force_refresh st) = st
       \<and> (force_refresh \<or> \<not> cache_contains (article_cache st) article_id now
            \<longrightarrow> fst (get_article scrapers now article_id force_refresh st) = Inr None)
       \<and> get_article_content scrapers now article_id st = (Inr None, st)"
proof -
  have live: "cache_contains (article_cache st) article_id now
     \<Longrightarrow> \<exists>article. cache_getitem (article_cache st) article_id now = Inr article"
    by (rule cache_getitem_live)
  have a: "snd (get_article scrapers now article_id f st) = st" for f
    using nodash by (auto simp: get_article_def split: sum.splits)
  have b: "fst (get_article scrapers now article_id force_refresh st) = Inr None"
    if "force_refresh \<or> \<not> cache_contains (article_cache st) article_id now"
    using that nodash by (auto simp: get_article_def)
  have c: "get_article_content scrapers now article_id st = (Inr None, st)"
    using nodash live
    by (auto simp: get_article_content_def get_article_def split: sum.splits option.splits prod.splits)
  show ?thesis using a b c by blast
qed

theorem dashless_article_id_is_absent_witness:
  "\<not> has_dash ''abc''
   \<and> snd (get_article mock_scrapers 0 ''abc'' False (init_state 1800)) = init_state 1800
   \<and> (False \<or> \<not> cache_contains (article_cache (init_state 1800)) ''abc'' 0)
   \<and> fst (get_article mock_scrapers 0 ''abc'' False (init_state 1800)) = Inr None
   \<and> get_article_content mock_scrapers 0 ''abc'' (init_state 1800) = (Inr None, init_state 1800)"
proof -
  have h1: "\<not> has_dash ''abc''"
    by (simp add: has_dash_def)
  have h2: "False \<or> \<not> cache_contains (article_cache (init_state 1800)) ''abc'' 0"
    by (simp add: cache_contains_def init_state_def)
  show ?thesis
    using h1 h2 dashless_article_id_is_absent [OF h1, of mock_scrapers 0 False "init_state 1800"]
    by (intro conjI) (simp_all only: simp_thms)
qed

section \<open>The feed cache\<close>

text \<open>
  Claim C6. Two consecutive calls for the same category, page and limit, both with
  \<open>force_refresh\<close> false, the timer not running backwards between them: if the key
  has a live entry in the feed cache at the second call, the second call returns
  the same feed as the first and leaves the state as it is; in particular the log
  of adapter calls does not grow, whatever the registry holds by then.
\<close>

theorem cached_feed_is_served_again:
  assumes first: "get_news_feed scrapers now1 wall1 category page limit False st0 = (r1, st1)"
    and mono: "now1 \<le> now2"
    and live2: "cache_contains (news_cache st1) (cache_key category page limit) now2"
  shows "get_news_feed scrapers2 now2 wall2 category page limit False st1 = (r1, st1)"
proof -
  let ?key = "cache_key category page limit"
  have second: "get_news_feed scrapers2 now2 wall2 category page limit False st1
                  = (cache_getitem (news_cache st1) ?key now2, st1)"
    using live2 by (simp add: get_news_feed_def)
  have "cache_getitem (news_cache st1) ?key now2 = r1"
  proof (cases rule: get_news_feed_cases [where scrapers = scrapers and now = now1 and wall = wall1
        and category = category and page = page and limit = limit and force_refresh = False
        and st = st0])
    case hit
    from first hit(3) have r1: "r1 = cache_getitem (news_cache st0) ?key now1" and st: "st1 = st0"
      by auto
    from hit(2) live2 show ?thesis
      unfolding r1 st by (rule cache_getitem_same [OF _ _])
  next
    case no_match
    from first no_match(3) have st: "st1 = st0" by simp
    from live2 mono have "cache_contains (news_cache st0) ?key now1"
      unfolding st by (rule cache_contains_mono)
    with no_match(1) show ?thesis by simp
  next
    case (failed e)
    from first failed(4) have st: "news_cache st1 = news_cache st0" by (auto split: if_splits)
    from live2 mono have "cache_contains (news_cache st0) ?key now1"
      unfolding st by (rule cache_contains_mono)
    with failed(1) show ?thesis by simp
  next
    case (passed feed st2)
    from first passed(4) have r1: "r1 = Inr feed" and st: "st1 = st2" by simp_all
    from fan_out_merge_Inr [OF passed(3)]
    have nc: "news_cache st2 = cache_setitem (news_cache st0) ?key feed now1"
      by auto
    from live2 have "now2 < now1 + ttl (news_cache st0)"
      unfolding st nc by (simp add: cache_contains_setitem)
    then show ?thesis
      unfolding r1 st nc by (rule cache_getitem_setitem)
  qed
  with second show ?thesis by simp
qed

theorem cached_feed_is_served_again_witness:
  "get_news_feed mock_scrapers 0 0 ''realtime'' 1 1 False (init_state 1800)
     = (fst (get_news_feed mock_scrapers 0 0 ''realtime'' 1 1 False (init_state 1800)),
        snd (get_news_feed mock_scrapers 0 0 ''realtime'' 1 1 False (init_state 1800)))
   \<and> (0::int) \<le> 10
   \<and> cache_contains
        (news_cache (snd (get_news_feed mock_scrapers 0 0 ''realtime'' 1 1 False (init_state 1800))))
        (cache_key ''realtime'' 1 1) 10
   \<and> get_news_feed mock_scrapers 10 10 ''realtime'' 1 1 False
        (snd (get_news_feed mock_scrapers 0 0 ''realtime'' 1 1 False (init_state 1800)))
     = (fst (get_news_feed mock_scrapers 0 0 ''realtime'' 1 1 False (init_state 1800)),
        snd (get_news_feed mock_scrapers 0 0 ''realtime'' 1 1 False (init_state 1800)))"
proof -
  let ?G = "get_news_feed mock_scrapers 0 0 ''realtime'' 1 1 False (init_state 1800)"
  have h1: "?G = (fst ?G, snd ?G)" by simp
  have h2: "(0::int) \<le> 10" by simp
  have fresh: "False \<or> \<not> cache_contains (news_cache (init_state 1800)) (cache_key ''realtime'' 1 1) 0"
    using init_miss by simp
  from get_news_feed_passed [OF fresh mock_tasks, of 0]
  obtain feed where
    "news_cache (snd ?G)
       = cache_setitem (news_cache (init_state 1800)) (cache_key ''realtime'' 1 1) feed 0"
    by auto
  then have h3: "cache_contains (news_cache (snd ?G)) (cache_key ''realtime'' 1 1) 10"
    by (simp add: cache_contains_setitem init_state_def)
  show ?thesis
    using h1 h2 h3 cached_feed_is_served_again [OF h1 h2 h3, of mock_scrapers 10]
    by (intro conjI) (simp_all only: simp_thms)
qed



section \<open>Merge order\<close>

text \<open>
  Claim C5. In the feed returned by a call that is not answered from the cache,
  every article is published no earlier than the one after it. When all matching
  adapters return, the articles are the page window of a list \<open>merged\<close> that holds
  exactly the concatenation of the adapters' results, is sorted by publication
  time, newest first, and keeps articles of equal publication time in the order
  they have in the concatenation.
\<close>

theorem fresh_feed_is_sorted_newest_first:
  assumes fresh: "force_refresh \<or> \<not> cache_contains (news_cache st) (cache_key category page limit) now"
    and result: "get_news_feed scrapers now wall category page limit force_refresh st = (Inr feed, st')"
  shows "(\<forall>i. Suc i < length (f_articles feed) \<longrightarrow>
            a_published_at (f_articles feed ! Suc i) \<le> a_published_at (f_articles feed ! i))
       \<and> (map (\<lambda>(scraper_id, scraper). s_fetch_articles scraper now limit)
              (matching_scrapers category scrapers) = map Inr article_lists
           \<and> article_lists \<noteq> []
         \<longrightarrow> (\<exists>merged.
                f_articles feed = py_slice merged ((page - 1) * limit) ((page - 1) * limit + limit)
              \<and> f_total feed = int (length merged)
              \<and> mset merged = mset (concat article_lists)
              \<and> sorted_wrt (\<lambda>a b. a_published_at b \<le> a_published_at a) merged
              \<and> (\<forall>t. filter (\<lambda>a. a_published_at a = t) merged
                       = filter (\<lambda>a. a_published_at a = t) (concat article_lists))))"
proof (intro conjI impI)
  let ?P = "\<lambda>a b. a_published_at b \<le> a_published_at a"
  have "sorted_wrt ?P (f_articles feed)"
  proof (cases rule: get_news_feed_cases [where scrapers = scrapers and now = now and wall = wall
        and category = category and page = page and limit = limit
        and force_refresh = force_refresh and st = st])
    case hit
    with fresh show ?thesis by simp
  next
    case no_match
    from result no_match(3) have "feed = empty_feed category page limit wall" by simp
    then show ?thesis by (simp add: empty_feed_def)
  next
    case (failed e)
    from result failed(4) have "feed = empty_feed category page limit wall"
      by (auto split: if_splits)
    then show ?thesis by (simp add: empty_feed_def)
  next
    case (passed feed2 st2)
    from result passed(4) have "feed2 = feed" by simp
    with fan_out_merge_Inr [OF passed(3)] obtain lists where
      "f_articles feed = py_slice (sort_reverse a_published_at (concat lists))
                                  ((page - 1) * limit) ((page - 1) * limit + limit)"
      by auto
    then show ?thesis
      by (simp only: py_slice_sorted [OF sort_reverse_sorted])
  qed
  then show "\<forall>i. Suc i < length (f_articles feed) \<longrightarrow>
            a_published_at (f_articles feed ! Suc i) \<le> a_published_at (f_articles feed ! i)"
    using sorted_wrt_adjacent [of ?P "f_articles feed"] by simp
next
  assume ok: "map (\<lambda>(scraper_id, scraper). s_fetch_articles scraper now limit)
              (matching_scrapers category scrapers) = map Inr article_lists
           \<and> article_lists \<noteq> []"
  let ?merged = "sort_reverse a_published_at (concat article_lists)"
  from get_news_feed_passed [OF fresh conjunct1 [OF ok] conjunct2 [OF ok], where wall = wall] result
  have feed: "feed = \<lparr>f_articles = py_slice ?merged ((page - 1) * limit) ((page - 1) * limit + limit),
               f_category = category, f_page = page, f_limit = limit,
               f_total = int (length (concat article_lists)), f_last_updated = wall\<rparr>"
    by simp
  have 1: "f_articles feed = py_slice ?merged ((page - 1) * limit) ((page - 1) * limit + limit)"
    by (subst feed) simp
  have 2: "f_total feed = int (length ?merged)"
    by (subst feed) (simp add: sort_reverse_def)
  have 3: "mset ?merged = mset (concat article_lists)" by (rule sort_reverse_mset)
  have 4: "sorted_wrt (\<lambda>a b. a_published_at b \<le> a_published_at a) ?merged"
    by (rule sort_reverse_sorted)
  have 5: "\<forall>t. filter (\<lambda>a. a_published_at a = t) ?merged
                       = filter (\<lambda>a. a_published_at a = t) (concat article_lists)"
    by (simp only: sort_reverse_stable) simp
  from 1 2 3 4 5 show "\<exists>merged.
                f_articles feed = py_slice merged ((page - 1) * limit) ((page - 1) * limit + limit)
              \<and> f_total feed = int (length merged)
              \<and> mset merged = mset (concat article_lists)
              \<and> sorted_wrt (\<lambda>a b. a_published_at b \<le> a_published_at a) merged
              \<and> (\<forall>t. filter (\<lambda>a. a_published_at a = t) merged
                       = filter (\<lambda>a. a_published_at a = t) (concat article_lists))"
    by blast
qed

theorem fresh_feed_is_sorted_newest_first_witness:
  "(False \<or> \<not> cache_contains (news_cache (init_state 1800)) (cache_key ''realtime'' 1 3) 0)
   \<and> get_news_feed two_sources 0 0 ''realtime'' 1 3 False (init_state 1800)
       = (Inr \<lparr>f_articles = [example_article ''srcA-2'' 3, example_article ''srcB-1'' 3,
                              example_article ''srcB-2'' 2],
               f_category = ''realtime'', f_page = 1, f_limit = 3, f_total = 4,
               f_last_updated = 0\<rparr>,
          snd (get_news_feed two_sources 0 0 ''realtime'' 1 3 False (init_state 1800)))
   \<and> (map (\<lambda>(scraper_id, scraper). s_fetch_articles scraper 0 3)
           (matching_scrapers ''realtime'' two_sources)
         = map Inr [[example_article ''srcA-1'' 1, example_article ''srcA-2'' 3],
                    [example_article ''srcB-1'' 3, example_article ''srcB-2'' 2]]
        \<and> [[example_article ''srcA-1'' 1, example_article ''srcA-2'' 3],
            [example_article ''srcB-1'' 3, example_article ''srcB-2'' 2]] \<noteq> [])
   \<and> (\<exists>merged.
         [example_article ''srcA-2'' 3, example_article ''srcB-1'' 3, example_article ''srcB-2'' 2]
           = py_slice merged ((1 - 1) * 3) ((1 - 1) * 3 + 3)
       \<and> mset merged = mset (concat [[example_article ''srcA-1'' 1, example_article ''srcA-2'' 3],
                                       [example_article ''srcB-1'' 3, example_article ''srcB-2'' 2]])
       \<and> sorted_wrt (\<lambda>a b. a_published_at b \<le> a_published_at a) merged)"
proof -
  let ?L = "[[example_article ''srcA-1'' 1, example_article ''srcA-2'' 3],
             [example_article ''srcB-1'' 3, example_article ''srcB-2'' 2]]"
  let ?F = "\<lparr>f_articles = [example_article ''srcA-2'' 3, example_article ''srcB-1'' 3,
                              example_article ''srcB-2'' 2],
               f_category = ''realtime'', f_page = 1, f_limit = 3, f_total = 4,
               f_last_updated = 0\<rparr>"
  let ?G = "get_news_feed two_sources 0 0 ''realtime'' 1 3 False (init_state 1800)"
  have h1: "False \<or> \<not> cache_contains (news_cache (init_state 1800)) (cache_key ''realtime'' 1 3) 0"
    using init_miss by simp
  have ne: "?L \<noteq> []" by simp
  from get_news_feed_passed [OF h1 two_sources_tasks ne, where wall = 0]
  have "fst ?G = Inr ?F"
    by (auto simp: two_sources_merged py_slice_def)
  then have h2: "?G = (Inr ?F, snd ?G)"
    by (simp add: prod_eq_iff)
  have h3: "map (\<lambda>(scraper_id, scraper). s_fetch_articles scraper 0 3)
           (matching_scrapers ''realtime'' two_sources) = map Inr ?L \<and> ?L \<noteq> []"
    using two_sources_tasks by simp
  from fresh_feed_is_sorted_newest_first [OF h1 h2, where article_lists = ?L] h3
  have "\<exists>merged.
         f_articles ?F = py_slice merged ((1 - 1) * 3) ((1 - 1) * 3 + 3)
       \<and> mset merged = mset (concat ?L)
       \<and> sorted_wrt (\<lambda>a b. a_published_at b \<le> a_published_at a) merged"
    by blast
  then have h4: "\<exists>merged.
         [example_article ''srcA-2'' 3, example_article ''srcB-1'' 3, example_article ''srcB-2'' 2]
           = py_slice merged ((1 - 1) * 3) ((1 - 1) * 3 + 3)
       \<and> mset merged = mset (concat ?L)
       \<and> sorted_wrt (\<lambda>a b. a_published_at b \<le> a_published_at a) merged"
    by simp
  show ?thesis
    using h1 h2 h3 h4 by (intro conjI) (simp_all only: simp_thms)
qed

section \<open>Content resolution\<close>

text \<open>
  Claim C3, as the code has it. The adapter that fetches the content is the first
  adapter in registry order whose key equals the token before the first \<open>'-'\<close>
  of the article id or is a leading prefix of it. When the article is resolved
  (it is live in the article cache, or that first adapter returns it among its 50
  articles), \<open>get_article_content\<close> returns what that first adapter's
  \<open>fetch_article_content\<close> answers for the article's URL. When no key matches the
  token, it returns the absent value.
\<close>

theorem content_comes_from_first_matching_adapter:
  "(has_dash article_id
     \<and> find (scraper_matches (split_source_id article_id)) scrapers = Some (scraper_id, scraper)
     \<and> (cache_contains (article_cache st) article_id now
          \<and> cache_getitem (article_cache st) article_id now = Inr article
        \<or> \<not> cache_contains (article_cache st) article_id now
          \<and> s_fetch_articles scraper now 50 = Inr items
          \<and> find_article article_id items = Some article)
    \<longrightarrow> fst (get_article_content scrapers now article_id st)
          = s_fetch_article_content scraper now (a_url article))
   \<and> (find (scraper_matches (split_source_id article_id)) scrapers = None
    \<longrightarrow> fst (get_article_content scrapers now article_id st) = Inr None)"
proof (intro conjI impI)
  let ?src = "split_source_id article_id"
  assume h: "has_dash article_id
     \<and> find (scraper_matches ?src) scrapers = Some (scraper_id, scraper)
     \<and> (cache_contains (article_cache st) article_id now
          \<and> cache_getitem (article_cache st) article_id now = Inr article
        \<or> \<not> cache_contains (article_cache st) article_id now
          \<and> s_fetch_articles scraper now 50 = Inr items
          \<and> find_article article_id items = Some article)"
  then have dash: "has_dash article_id"
    and first: "find (scraper_matches ?src) scrapers = Some (scraper_id, scraper)"
    by simp_all
  have route: "route_content scrapers ?src (a_url article) now
                 = s_fetch_article_content scraper now (a_url article)"
    by (simp add: route_content_find first)
  have "fst (get_article scrapers now article_id False st) = Inr (Some article)"
  proof (cases "cache_contains (article_cache st) article_id now")
    case True
    with h have "cache_getitem (article_cache st) article_id now = Inr article" by simp
    with True show ?thesis by (simp add: get_article_hit)
  next
    case False
    with h have "s_fetch_articles scraper now 50 = Inr items"
      and "find_article article_id items = Some article" by simp_all
    then have "fst (search_scrapers scrapers ?src article_id now st) = Inr (Some article)"
      by (rule search_scrapers_first_match [OF first])
    with False dash show ?thesis by (simp add: get_article_def)
  qed
  then obtain st1 where "get_article scrapers now article_id False st = (Inr (Some article), st1)"
    by (cases "get_article scrapers now article_id False st") simp
  then show "fst (get_article_content scrapers now article_id st)
          = s_fetch_article_content scraper now (a_url article)"
    using dash route by (simp add: get_article_content_def)
next
  let ?src = "split_source_id article_id"
  assume none: "find (scraper_matches ?src) scrapers = None"
  have route: "route_content scrapers ?src u now = Inr None" for u
    by (simp add: route_content_find none)
  show "fst (get_article_content scrapers now article_id st) = Inr None"
  proof (cases "cache_contains (article_cache st) article_id now")
    case True
    from cache_getitem_live [OF True]
    obtain article where "cache_getitem (article_cache st) article_id now = Inr article"
      by (elim exE)
    with True have "get_article scrapers now article_id False st = (Inr (Some article), st)"
      by (rule get_article_hit)
    then show ?thesis by (simp add: get_article_content_def route)
  next
    case False
    then have "get_article scrapers now article_id False st = (Inr None, st)"
      using get_article_no_match [OF none] by simp
    then show ?thesis by (simp add: get_article_content_def)
  qed
qed

theorem content_comes_from_first_matching_adapter_witness:
  "has_dash ''srcA-2''
   \<and> find (scraper_matches (split_source_id ''srcA-2'')) two_sources
        = Some (''srcA'', fixed_scraper ''srcA'' ''world''
                  [example_article ''srcA-1'' 1, example_article ''srcA-2'' 3] ''body A'')
   \<and> \<not> cache_contains (article_cache (init_state 1800)) ''srcA-2'' 0
   \<and> s_fetch_articles (fixed_scraper ''srcA'' ''world''
                  [example_article ''srcA-1'' 1, example_article ''srcA-2'' 3] ''body A'') 0 50
        = Inr [example_article ''srcA-1'' 1, example_article ''srcA-2'' 3]
   \<and> find_article ''srcA-2'' [example_article ''srcA-1'' 1, example_article ''srcA-2'' 3]
        = Some (example_article ''srcA-2'' 3)
   \<and> fst (get_article_content two_sources 0 ''srcA-2'' (init_state 1800)) = Inr (Some ''body A'')
   \<and> find (scraper_matches (split_source_id ''unknown-xyz'')) two_sources = None
   \<and> fst (get_article_content two_sources 0 ''unknown-xyz'' (init_state 1800)) = Inr None"
proof -
  let ?A = "fixed_scraper ''srcA'' ''world''
                  [example_article ''srcA-1'' 1, example_article ''srcA-2'' 3] ''body A''"
  have h1: "has_dash ''srcA-2''" by (simp add: has_dash_def)
  have h2: "find (scraper_matches (split_source_id ''srcA-2'')) two_sources = Some (''srcA'', ?A)"
    by (simp add: split_source_id_def scraper_matches_def startswith_def two_sources_def)
  have h3: "\<not> cache_contains (article_cache (init_state 1800)) ''srcA-2'' 0"
    by (simp add: cache_contains_def init_state_def)
  have h4: "s_fetch_articles ?A 0 50 = Inr [example_article ''srcA-1'' 1, example_article ''srcA-2'' 3]"
    by (simp add: fixed_scraper_def)
  have h5: "find_article ''srcA-2'' [example_article ''srcA-1'' 1, example_article ''srcA-2'' 3]
        = Some (example_article ''srcA-2'' 3)"
    by (simp add: example_article_def)
  have h6: "find (scraper_matches (split_source_id ''unknown-xyz'')) two_sources = None"
    by (simp add: split_source_id_def scraper_matches_def startswith_def two_sources_def)
  have body: "s_fetch_article_content ?A 0 (a_url (example_article ''srcA-2'' 3)) = Inr (Some ''body A'')"
    by (simp add: fixed_scraper_def)
  have prem: "has_dash ''srcA-2''
     \<and> find (scraper_matches (split_source_id ''srcA-2'')) two_sources = Some (''srcA'', ?A)
     \<and> (cache_contains (article_cache (init_state 1800)) ''srcA-2'' 0
          \<and> cache_getitem (article_cache (init_state 1800)) ''srcA-2'' 0
              = Inr (example_article ''srcA-2'' 3)
        \<or> \<not> cache_contains (article_cache (init_state 1800)) ''srcA-2'' 0
          \<and> s_fetch_articles ?A 0 50 = Inr [example_article ''srcA-1'' 1, example_article ''srcA-2'' 3]
          \<and> find_article ''srcA-2'' [example_article ''srcA-1'' 1, example_article ''srcA-2'' 3]
              = Some (example_article ''srcA-2'' 3))"
    using h1 h2 h3 h4 h5 by (simp only: simp_thms)
  note known = content_comes_from_first_matching_adapter [where article_id = "''srcA-2''" and scrapers = two_sources
        and scraper_id = "''srcA''" and scraper = ?A and st = "init_state 1800" and now = 0
        and article = "example_article ''srcA-2'' 3"
        and items = "[example_article ''srcA-1'' 1, example_article ''srcA-2'' 3]",
        THEN conjunct1, THEN mp, OF prem]
  have h7: "fst (get_article_content two_sources 0 ''srcA-2'' (init_state 1800)) = Inr (Some ''body A'')"
    using known by (simp only: body)
  note unknown = content_comes_from_first_matching_adapter [where article_id = "''unknown-xyz''" and scrapers = two_sources
        and st = "init_state 1800" and now = 0, THEN conjunct2, THEN mp, OF h6]
  have h8: "fst (get_article_content two_sources 0 ''unknown-xyz'' (init_state 1800)) = Inr None"
    by (rule unknown)
  show ?thesis
    using h1 h2 h3 h4 h5 h6 h7 h8 by (intro conjI) (simp_all only: simp_thms)
qed

text \<open>
  Claim C3 as stated fails when the keys of two adapters match the token. With the
  keys \<open>reddit\<close> and \<open>reddit_worldnews\<close>, in this order, the token of the id
  \<open>reddit_worldnews-1\<close> equals the key of the second adapter, which knows the
  article; the content returned is the one the first adapter fetches.
\<close>

theorem content_not_from_owning_adapter:
  "split_source_id ''reddit_worldnews-1'' = ''reddit_worldnews''
   \<and> map_of overlapping ''reddit_worldnews''
        = Some (fixed_scraper ''reddit_worldnews'' ''world''
                  [example_article ''reddit_worldnews-1'' 1] ''body of reddit_worldnews'')
   \<and> s_fetch_articles (fixed_scraper ''reddit_worldnews'' ''world''
                  [example_article ''reddit_worldnews-1'' 1] ''body of reddit_worldnews'') 0 50
        = Inr [example_article ''reddit_worldnews-1'' 1]
   \<and> a_id (example_article ''reddit_worldnews-1'' 1) = ''reddit_worldnews-1''
   \<and> s_fetch_article_content (fixed_scraper ''reddit_worldnews'' ''world''
                  [example_article ''reddit_worldnews-1'' 1] ''body of reddit_worldnews'') 0
          (a_url (example_article ''reddit_worldnews-1'' 1))
        = Inr (Some ''body of reddit_worldnews'')
   \<and> fst (get_article_content overlapping 0 ''reddit_worldnews-1'' (init_state 1800))
        = Inr (Some ''body of reddit'')
   \<and> fst (get_article_content overlapping 0 ''reddit_worldnews-1'' (init_state 1800))
        \<noteq> Inr (Some ''body of reddit_worldnews'')"
proof -
  have g: "get_article overlapping 0 ''reddit_worldnews-1'' False (init_state 1800)
             = (Inr (Some (example_article ''reddit_worldnews-1'' 1)),
                snd (get_article overlapping 0 ''reddit_worldnews-1'' False (init_state 1800)))"
    by (simp add: prod_eq_iff get_article_def cache_contains_def init_state_def has_dash_def
          split_source_id_def overlapping_def scraper_matches_def startswith_def
          fixed_scraper_def example_article_def Let_def)
  have c: "fst (get_article_content overlapping 0 ''reddit_worldnews-1'' (init_state 1800))
        = Inr (Some ''body of reddit'')"
    by (subst get_article_content_def, subst g)
       (simp add: has_dash_def split_source_id_def overlapping_def scraper_matches_def
          startswith_def fixed_scraper_def)
  have d: "fst (get_article_content overlapping 0 ''reddit_worldnews-1'' (init_state 1800))
        \<noteq> Inr (Some ''body of reddit_worldnews'')"
    by (simp only: c) simp
  have e: "split_source_id ''reddit_worldnews-1'' = ''reddit_worldnews''"
    by (simp add: split_source_id_def)
  have f: "map_of overlapping ''reddit_worldnews''
        = Some (fixed_scraper ''reddit_worldnews'' ''world''
                  [example_article ''reddit_worldnews-1'' 1] ''body of reddit_worldnews'')"
    by (simp add: overlapping_def)
  show ?thesis
    using c d e f by (intro conjI) (simp_all add: fixed_scraper_def example_article_def)
qed

section \<open>An adapter that raises\<close>

text \<open>
  Claim C4, as the code has it. When exactly one of the matching adapters raises
  during the fan-out and the others return their articles, \<open>gather\<close> re-raises
  inside the \<open>try\<close> block. If the exception is of class \<open>Exception\<close>, the handler
  returns the empty feed: \<open>get_news_feed\<close> does not raise, and the articles of
  the other adapters are not in the feed. If it is not (a cancellation), it leaves
  \<open>get_news_feed\<close>.
\<close>

theorem one_raising_adapter_empties_feed:
  assumes fresh: "force_refresh \<or> \<not> cache_contains (news_cache st) (cache_key category page limit) now"
    and one: "map (\<lambda>(scraper_id, scraper). s_fetch_articles scraper now limit)
                  (matching_scrapers category scrapers)
                = map Inr before @ Inl (Raises e) # map Inr after"
  shows "(is_Exception e \<longrightarrow>
            fst (get_news_feed scrapers now wall category page limit force_refresh st)
              = Inr (empty_feed category page limit wall))
       \<and> (\<not> is_Exception e \<longrightarrow>
            fst (get_news_feed scrapers now wall category page limit force_refresh st) = Inl e)"
proof -
  have "fan_out_merge (map (\<lambda>(scraper_id, scraper). s_fetch_articles scraper now limit)
                           (matching_scrapers category scrapers))
          now wall category page limit st = Inl e"
    unfolding one by (rule fan_out_merge_one_raises)
  from fan_out_error_result [OF fresh this] show ?thesis by simp
qed

theorem one_raising_adapter_empties_feed_witness:
  "(False \<or> \<not> cache_contains (news_cache (init_state 1800)) (cache_key ''realtime'' 1 1) 0)
   \<and> map (\<lambda>(scraper_id, scraper). s_fetch_articles scraper 0 1)
          (matching_scrapers ''realtime'' one_broken)
       = map Inr [map (mock_article ''mock1'' ''Mock Source 1'' ''technology'' 0) [0..1 - 1]]
           @ Inl (Raises (AdapterError ''timeout'')) # map Inr []
   \<and> is_Exception (AdapterError ''timeout'')
   \<and> fst (get_news_feed one_broken 0 0 ''realtime'' 1 1 False (init_state 1800))
         = Inr (empty_feed ''realtime'' 1 1 0)
   \<and> map (\<lambda>(scraper_id, scraper). s_fetch_articles scraper 0 1)
          (matching_scrapers ''realtime'' one_cancelled)
       = map Inr [map (mock_article ''mock1'' ''Mock Source 1'' ''technology'' 0) [0..1 - 1]]
           @ Inl (Raises CancelledError) # map Inr []
   \<and> \<not> is_Exception CancelledError
   \<and> fst (get_news_feed one_cancelled 0 0 ''realtime'' 1 1 False (init_state 1800))
         = Inl CancelledError"
proof -
  have h1: "False \<or> \<not> cache_contains (news_cache (init_state 1800)) (cache_key ''realtime'' 1 1) 0"
    using init_miss by simp
  have h2: "is_Exception (AdapterError ''timeout'')" by (simp add: is_Exception_def)
  have h3: "\<not> is_Exception CancelledError" by (simp add: is_Exception_def)
  note a = one_raising_adapter_empties_feed [OF h1 one_broken_tasks, where wall = 0,
      THEN conjunct1, THEN mp, OF h2]
  note b = one_raising_adapter_empties_feed [OF h1 one_cancelled_tasks, where wall = 0,
      THEN conjunct2, THEN mp, OF h3]
  show ?thesis
    using h1 h2 h3 a b one_broken_tasks [of 0] one_cancelled_tasks [of 0]
    by (intro conjI) (simp_all only: simp_thms)
qed

text \<open>
  Claim C4 as stated fails: with two matching adapters, one raising and one
  returning an article, the feed returned does not contain that article.
\<close>

theorem raising_adapter_drops_other_articles:
  "s_fetch_articles broken_scraper 0 1 = Inl (Raises (AdapterError ''timeout''))
   \<and> s_fetch_articles (MockScraper ''mock1'' ''Mock Source 1'' ''technology'') 0 1
        = Inr [mock_article ''mock1'' ''Mock Source 1'' ''technology'' 0 0]
   \<and> fst (get_news_feed one_broken 0 0 ''realtime'' 1 1 False (init_state 1800))
        = Inr (empty_feed ''realtime'' 1 1 0)
   \<and> mock_article ''mock1'' ''Mock Source 1'' ''technology'' 0 0
        \<notin> set (f_articles (empty_feed ''realtime'' 1 1 0))"
proof (intro conjI)
  show "s_fetch_articles broken_scraper 0 1 = Inl (Raises (AdapterError ''timeout''))"
    by (simp add: broken_scraper_def)
  show "s_fetch_articles (MockScraper ''mock1'' ''Mock Source 1'' ''technology'') 0 1
        = Inr [mock_article ''mock1'' ''Mock Source 1'' ''technology'' 0 0]"
    by (simp add: MockScraper_def upto.simps)
  show "fst (get_news_feed one_broken 0 0 ''realtime'' 1 1 False (init_state 1800))
        = Inr (empty_feed ''realtime'' 1 1 0)"
    by (simp add: get_news_feed_def cache_contains_def init_state_def matching_scrapers_def
          one_broken_def broken_scraper_def MockScraper_def fan_out_merge_def is_Exception_def)
  show "mock_article ''mock1'' ''Mock Source 1'' ''technology'' 0 0
        \<notin> set (f_articles (empty_feed ''realtime'' 1 1 0))"
    by (simp add: empty_feed_def)
qed

section \<open>The aggregation boundary\<close>

text \<open>
  Claim C8, as the code has it. When the call is not answered from the cache and
  the fan-out and merge step (the body of the \<open>try\<close> block) ends in an exception
  of class \<open>Exception\<close>, whether an adapter raised it or combining the results
  did, \<open>get_news_feed\<close> returns the empty feed for the requested category, page
  and limit. An exception that is not of class \<open>Exception\<close> leaves
  \<open>get_news_feed\<close>. When no matching adapter raises a cancellation, the call
  returns a feed, whatever else the adapters do.
\<close>

theorem exceptions_of_class_Exception_are_contained:
  "((force_refresh \<or> \<not> cache_contains (news_cache st) (cache_key category page limit) now)
      \<and> fan_out_merge
           (map (\<lambda>(scraper_id, scraper). s_fetch_articles scraper now limit)
                (matching_scrapers category scrapers))
           now wall category page limit st' = Inl e
      \<and> is_Exception e
    \<longrightarrow> fst (get_news_feed scrapers now wall category page limit force_refresh st)
          = Inr (empty_feed category page limit wall))
   \<and> ((force_refresh \<or> \<not> cache_contains (news_cache st) (cache_key category page limit) now)
      \<and> fan_out_merge
           (map (\<lambda>(scraper_id, scraper). s_fetch_articles scraper now limit)
                (matching_scrapers category scrapers))
           now wall category page limit st' = Inl e
      \<and> \<not> is_Exception e
    \<longrightarrow> fst (get_news_feed scrapers now wall category page limit force_refresh st) = Inl e)
   \<and> ((\<forall>task \<in> set (map (\<lambda>(scraper_id, scraper). s_fetch_articles scraper now limit)
                           (matching_scrapers category scrapers)).
          task \<noteq> Inl (Raises CancelledError))
    \<longrightarrow> (\<exists>feed. fst (get_news_feed scrapers now wall category page limit force_refresh st)
                  = Inr feed))"
proof (intro conjI impI)
  let ?G = "get_news_feed scrapers now wall category page limit force_refresh st"
  let ?tasks = "map (\<lambda>(scraper_id, scraper). s_fetch_articles scraper now limit)
                    (matching_scrapers category scrapers)"
  {
    assume h: "(force_refresh \<or> \<not> cache_contains (news_cache st) (cache_key category page limit) now)
      \<and> fan_out_merge ?tasks now wall category page limit st' = Inl e \<and> is_Exception e"
    from fan_out_error_result [OF conjunct1 [OF h] conjunct1 [OF conjunct2 [OF h]]] h
    show "fst ?G = Inr (empty_feed category page limit wall)" by simp
  }
  {
    assume h: "(force_refresh \<or> \<not> cache_contains (news_cache st) (cache_key category page limit) now)
      \<and> fan_out_merge ?tasks now wall category page limit st' = Inl e \<and> \<not> is_Exception e"
    from fan_out_error_result [OF conjunct1 [OF h] conjunct1 [OF conjunct2 [OF h]]] h
    show "fst ?G = Inl e" by simp
  }
  {
    assume none: "\<forall>task \<in> set ?tasks. task \<noteq> Inl (Raises CancelledError)"
    show "\<exists>feed. fst ?G = Inr feed"
    proof (cases rule: get_news_feed_cases [where scrapers = scrapers and now = now and wall = wall
          and category = category and page = page and limit = limit
          and force_refresh = force_refresh and st = st])
      case hit
      from cache_getitem_live [OF hit(2)] hit(3) show ?thesis by auto
    next
      case no_match
      then show ?thesis by simp
    next
      case (failed e0)
      from fan_out_merge_error_source [OF failed(3)] none have "e0 \<noteq> CancelledError"
        by auto
      then have "is_Exception e0" by (simp add: is_Exception_def)
      with failed(4) show ?thesis by simp
    next
      case (passed feed st2)
      then show ?thesis by simp
    qed
  }
qed

theorem exceptions_of_class_Exception_are_contained_witness:
  "(False \<or> \<not> cache_contains (news_cache (init_state 1800)) (cache_key ''realtime'' 1 1) 0)
   \<and> fan_out_merge
        (map (\<lambda>(scraper_id, scraper). s_fetch_articles scraper 0 1)
             (matching_scrapers ''realtime'' one_no_list))
        0 0 ''realtime'' 1 1 (init_state 1800) = Inl TypeError
   \<and> is_Exception TypeError
   \<and> fst (get_news_feed one_no_list 0 0 ''realtime'' 1 1 False (init_state 1800))
        = Inr (empty_feed ''realtime'' 1 1 0)
   \<and> fan_out_merge
        (map (\<lambda>(scraper_id, scraper). s_fetch_articles scraper 0 1)
             (matching_scrapers ''realtime'' one_cancelled))
        0 0 ''realtime'' 1 1 (init_state 1800) = Inl CancelledError
   \<and> \<not> is_Exception CancelledError
   \<and> fst (get_news_feed one_cancelled 0 0 ''realtime'' 1 1 False (init_state 1800))
        = Inl CancelledError
   \<and> map (\<lambda>(scraper_id, scraper). s_fetch_articles scraper 0 1)
          (matching_scrapers ''realtime'' one_broken)
       = map Inr [map (mock_article ''mock1'' ''Mock Source 1'' ''technology'' 0) [0..1 - 1]]
           @ Inl (Raises (AdapterError ''timeout'')) # map Inr []
   \<and> (\<exists>feed. fst (get_news_feed one_broken 0 0 ''realtime'' 1 1 False (init_state 1800))
                = Inr feed)"
proof -
  have h1: "False \<or> \<not> cache_contains (news_cache (init_state 1800)) (cache_key ''realtime'' 1 1) 0"
    using init_miss by simp
  have t: "fan_out_merge
        (map (\<lambda>(scraper_id, scraper). s_fetch_articles scraper 0 1)
             (matching_scrapers ''realtime'' one_no_list))
        0 0 ''realtime'' 1 1 (init_state 1800) = Inl TypeError"
    by (rule one_no_list_fails)
  have te: "is_Exception TypeError" by (simp add: is_Exception_def)
  have c: "fan_out_merge
        (map (\<lambda>(scraper_id, scraper). s_fetch_articles scraper 0 1)
             (matching_scrapers ''realtime'' one_cancelled))
        0 0 ''realtime'' 1 1 (init_state 1800) = Inl CancelledError"
    unfolding one_cancelled_tasks by (rule fan_out_merge_one_raises)
  have ce: "\<not> is_Exception CancelledError" by (simp add: is_Exception_def)
  have b: "\<forall>task \<in> set (map (\<lambda>(scraper_id, scraper). s_fetch_articles scraper 0 1)
                          (matching_scrapers ''realtime'' one_broken)).
         task \<noteq> Inl (Raises CancelledError)"
    unfolding one_broken_tasks by simp
  note r1 = exceptions_of_class_Exception_are_contained
      [where scrapers = one_no_list and now = 0 and wall = 0 and category = "''realtime''"
         and page = 1 and limit = 1 and force_refresh = False and st = "init_state 1800"
         and st' = "init_state 1800" and e = TypeError,
       THEN conjunct1, THEN mp, OF conjI [OF h1 conjI [OF t te]]]
  note r2 = exceptions_of_class_Exception_are_contained
      [where scrapers = one_cancelled and now = 0 and wall = 0 and category = "''realtime''"
         and page = 1 and limit = 1 and force_refresh = False and st = "init_state 1800"
         and st' = "init_state 1800" and e = CancelledError,
       THEN conjunct2, THEN conjunct1, THEN mp, OF conjI [OF h1 conjI [OF c ce]]]
  note r3 = exceptions_of_class_Exception_are_contained
      [where scrapers = one_broken and now = 0 and wall = 0 and category = "''realtime''"
         and page = 1 and limit = 1 and force_refresh = False and st = "init_state 1800",
       THEN conjunct2, THEN conjunct2, THEN mp, OF b]
  show ?thesis
    using h1 t te r1 c ce r2 one_broken_tasks [of 0] r3
    by (intro conjI) (simp_all only: simp_thms)
qed

text \<open>
  Claim C8 as stated fails: the handler is \<open>except Exception\<close>, and a cancellation
  raised in the fan-out is not of that class. With one adapter returning and one
  cancelled, the exception leaves \<open>get_news_feed\<close>.
\<close>

theorem cancellation_leaves_get_news_feed:
  "s_fetch_articles cancelled_scraper 0 1 = Inl (Raises CancelledError)
   \<and> (''cancelled'', cancelled_scraper) \<in> set (matching_scrapers ''realtime'' one_cancelled)
   \<and> \<not> cache_contains (news_cache (init_state 1800)) (cache_key ''realtime'' 1 1) 0
   \<and> fst (get_news_feed one_cancelled 0 0 ''realtime'' 1 1 False (init_state 1800))
        = Inl CancelledError"
proof (intro conjI)
  show "s_fetch_articles cancelled_scraper 0 1 = Inl (Raises CancelledError)"
    by (simp add: cancelled_scraper_def)
  show "(''cancelled'', cancelled_scraper) \<in> set (matching_scrapers ''realtime'' one_cancelled)"
    by (simp add: matching_scrapers_def one_cancelled_def)
  show "\<not> cache_contains (news_cache (init_state 1800)) (cache_key ''realtime'' 1 1) 0"
    by (rule init_miss)
  show "fst (get_news_feed one_cancelled 0 0 ''realtime'' 1 1 False (init_state 1800))
        = Inl CancelledError"
    by (simp add: get_news_feed_def cache_contains_def init_state_def matching_scrapers_def
          one_cancelled_def cancelled_scraper_def MockScraper_def fan_out_merge_def
          is_Exception_def)
qed

section \<open>Degraded passes and the caches\<close>

text \<open>
  Claim C9, as the code has it. When a call that is not answered from the cache
  takes a degraded path (no adapter matches the category, or the fan-out and merge
  step ends in an exception of class \<open>Exception\<close>), it returns the empty feed and
  both caches are exactly what they were before the call: the empty feed is never
  stored. What a later call for the same key does follows from the cache as it
  was. If the degraded call was not a forced refresh, there was no live entry and
  the later call fans out again. If it was a forced refresh and the entry it
  bypassed is still live, the later call without \<open>force_refresh\<close> is answered with
  that entry and leaves the state as it is.
\<close>

theorem degraded_pass_leaves_caches_untouched:
  assumes fresh: "force_refresh \<or> \<not> cache_contains (news_cache st) (cache_key category page limit) now"
    and degraded: "matching_scrapers category scrapers = []
       \<or> fan_out_merge
             (map (\<lambda>(scraper_id, scraper). s_fetch_articles scraper now limit)
                  (matching_scrapers category scrapers))
             now wall category page limit st1 = Inl e \<and> is_Exception e"
  shows "fst (get_news_feed scrapers now wall category page limit force_refresh st)
           = Inr (empty_feed category page limit wall)
       \<and> news_cache (snd (get_news_feed scrapers now wall category page limit force_refresh st))
           = news_cache st
       \<and> article_cache (snd (get_news_feed scrapers now wall category page limit force_refresh st))
           = article_cache st
       \<and> (\<not> force_refresh \<and> now \<le> now2 \<longrightarrow>
            fetch_log (snd (get_news_feed scrapers now2 wall2 category page limit False
                 (snd (get_news_feed scrapers now wall category page limit force_refresh st))))
            = fetch_log (snd (get_news_feed scrapers now wall category page limit force_refresh st))
                @ map (\<lambda>(scraper_id, scraper). (scraper_id, limit))
                    (matching_scrapers category scrapers))
       \<and> (cache_contains (news_cache st) (cache_key category page limit) now2 \<longrightarrow>
            get_news_feed scrapers now2 wall2 category page limit False
                 (snd (get_news_feed scrapers now wall category page limit force_refresh st))
            = (cache_getitem (news_cache st) (cache_key category page limit) now2,
               snd (get_news_feed scrapers now wall category page limit force_refresh st)))"
proof -
  let ?G = "get_news_feed scrapers now wall category page limit force_refresh st"
  let ?sel = "matching_scrapers category scrapers"
  let ?key = "cache_key category page limit"
  have G: "?G = (Inr (empty_feed category page limit wall), st)
         \<or> ?G = (Inr (empty_feed category page limit wall),
              st\<lparr>fetch_log := fetch_log st
                    @ map (\<lambda>(scraper_id, scraper). (scraper_id, limit)) ?sel\<rparr>)"
  proof (cases "?sel = []")
    case True
    have "?G = (Inr (empty_feed category page limit wall), st)"
      by (rule no_match_empty_feed [OF fresh True])
    then show ?thesis by (rule disjI1)
  next
    case False
    with degraded have err: "fan_out_merge
             (map (\<lambda>(scraper_id, scraper). s_fetch_articles scraper now limit) ?sel)
             now wall category page limit st1 = Inl e" and exc: "is_Exception e"
      by simp_all
    have "?G = (Inr (empty_feed category page limit wall),
              st\<lparr>fetch_log := fetch_log st
                    @ map (\<lambda>(scraper_id, scraper). (scraper_id, limit)) ?sel\<rparr>)"
      using fan_out_error_result [OF fresh err] exc by simp
    then show ?thesis by (rule disjI2)
  qed
  then have res: "fst ?G = Inr (empty_feed category page limit wall)"
    by (elim disjE) simp_all
  from G have nc: "news_cache (snd ?G) = news_cache st"
    by (elim disjE) simp_all
  from G have ac: "article_cache (snd ?G) = article_cache st"
    by (elim disjE) simp_all
  have again: "fetch_log (snd (get_news_feed scrapers now2 wall2 category page limit False (snd ?G)))
            = fetch_log (snd ?G) @ map (\<lambda>(scraper_id, scraper). (scraper_id, limit)) ?sel"
    if "\<not> force_refresh" "now \<le> now2"
  proof -
    from that fresh have n1: "\<not> cache_contains (news_cache st) ?key now"
      by simp
    have "\<not> cache_contains (news_cache st) ?key now2"
    proof
      assume "cache_contains (news_cache st) ?key now2"
      then have "cache_contains (news_cache st) ?key now"
        using that(2) by (rule cache_contains_mono)
      with n1 show False by simp
    qed
    then have "False \<or> \<not> cache_contains (news_cache (snd ?G)) ?key now2"
      using nc by simp
    then show ?thesis by (rule get_news_feed_fetch_log)
  qed
  have served: "get_news_feed scrapers now2 wall2 category page limit False (snd ?G)
            = (cache_getitem (news_cache st) ?key now2, snd ?G)"
    if "cache_contains (news_cache st) ?key now2"
  proof -
    from that have "cache_contains (news_cache (snd ?G)) ?key now2"
      by (simp only: nc)
    then have "get_news_feed scrapers now2 wall2 category page limit False (snd ?G)
            = (cache_getitem (news_cache (snd ?G)) ?key now2, snd ?G)"
      by (rule get_news_feed_hit)
    then show ?thesis by (simp only: nc)
  qed
  show ?thesis
  proof (intro conjI impI)
    show "fst ?G = Inr (empty_feed category page limit wall)" by (rule res)
    show "news_cache (snd ?G) = news_cache st" by (rule nc)
    show "article_cache (snd ?G) = article_cache st" by (rule ac)
    show "fetch_log (snd (get_news_feed scrapers now2 wall2 category page limit False (snd ?G)))
            = fetch_log (snd ?G) @ map (\<lambda>(scraper_id, scraper). (scraper_id, limit)) ?sel"
      if "\<not> force_refresh \<and> now \<le> now2"
      using again [OF conjunct1 [OF that] conjunct2 [OF that]] .
    show "get_news_feed scrapers now2 wall2 category page limit False (snd ?G)
            = (cache_getitem (news_cache st) ?key now2, snd ?G)"
      if "cache_contains (news_cache st) ?key now2"
      using served [OF that] .
  qed
qed

theorem degraded_pass_leaves_caches_untouched_witness:
  "(False \<or> \<not> cache_contains (news_cache (init_state 1800)) (cache_key ''realtime'' 1 1) 0)
   \<and> (matching_scrapers ''realtime'' one_broken = []
        \<or> fan_out_merge
             (map (\<lambda>(scraper_id, scraper). s_fetch_articles scraper 0 1)
                  (matching_scrapers ''realtime'' one_broken))
             0 0 ''realtime'' 1 1 (init_state 1800) = Inl (AdapterError ''timeout'')
          \<and> is_Exception (AdapterError ''timeout''))
   \<and> (\<not> False \<and> (0::int) \<le> 5)
   \<and> fst (get_news_feed one_broken 0 0 ''realtime'' 1 1 False (init_state 1800)) = Inr (empty_feed ''realtime'' 1 1 0)
   \<and> news_cache (snd (get_news_feed one_broken 0 0 ''realtime'' 1 1 False (init_state 1800))) = news_cache (init_state 1800)
   \<and> article_cache (snd (get_news_feed one_broken 0 0 ''realtime'' 1 1 False (init_state 1800))) = article_cache (init_state 1800)
   \<and> fetch_log (snd (get_news_feed one_broken 5 5 ''realtime'' 1 1 False (snd (get_news_feed one_broken 0 0 ''realtime'' 1 1 False (init_state 1800)))))
        = fetch_log (snd (get_news_feed one_broken 0 0 ''realtime'' 1 1 False (init_state 1800)))
            @ map (\<lambda>(scraper_id, scraper). (scraper_id, 1)) (matching_scrapers ''realtime'' one_broken)
   \<and> (True \<or> \<not> cache_contains (news_cache (snd (get_news_feed flaky 0 0 ''realtime'' 1 1 False (init_state 1800)))) (cache_key ''realtime'' 1 1) 5)
   \<and> (matching_scrapers ''realtime'' flaky = []
        \<or> fan_out_merge
             (map (\<lambda>(scraper_id, scraper). s_fetch_articles scraper 5 1)
                  (matching_scrapers ''realtime'' flaky))
             5 5 ''realtime'' 1 1 (init_state 1800) = Inl (AdapterError ''timeout'')
          \<and> is_Exception (AdapterError ''timeout''))
   \<and> cache_contains (news_cache (snd (get_news_feed flaky 0 0 ''realtime'' 1 1 False (init_state 1800)))) (cache_key ''realtime'' 1 1) 6
   \<and> get_news_feed flaky 6 6 ''realtime'' 1 1 False (snd (get_news_feed flaky 5 5 ''realtime'' 1 1 True (snd (get_news_feed flaky 0 0 ''realtime'' 1 1 False (init_state 1800))))) = (cache_getitem (news_cache (snd (get_news_feed flaky 0 0 ''realtime'' 1 1 False (init_state 1800)))) (cache_key ''realtime'' 1 1) 6, snd (get_news_feed flaky 5 5 ''realtime'' 1 1 True (snd (get_news_feed flaky 0 0 ''realtime'' 1 1 False (init_state 1800)))))"
proof -
  have h1: "False \<or> \<not> cache_contains (news_cache (init_state 1800)) (cache_key ''realtime'' 1 1) 0"
    using init_miss by simp
  have exc: "is_Exception (AdapterError ''timeout'')" by (simp add: is_Exception_def)
  have errA: "fan_out_merge
             (map (\<lambda>(scraper_id, scraper). s_fetch_articles scraper 0 1)
                  (matching_scrapers ''realtime'' one_broken))
             0 0 ''realtime'' 1 1 (init_state 1800) = Inl (AdapterError ''timeout'')"
    unfolding one_broken_tasks by (rule fan_out_merge_one_raises)
  have h2: "matching_scrapers ''realtime'' one_broken = []
        \<or> fan_out_merge
             (map (\<lambda>(scraper_id, scraper). s_fetch_articles scraper 0 1)
                  (matching_scrapers ''realtime'' one_broken))
             0 0 ''realtime'' 1 1 (init_state 1800) = Inl (AdapterError ''timeout'')
          \<and> is_Exception (AdapterError ''timeout'')"
    using errA exc by simp
  have h3: "\<not> False \<and> (0::int) \<le> 5" by simp
  note a = degraded_pass_leaves_caches_untouched [OF h1 h2, where ?now2.0 = 5 and ?wall2.0 = 5]
  note a1 = a [THEN conjunct1]
  note a2 = a [THEN conjunct2, THEN conjunct1]
  note a3 = a [THEN conjunct2, THEN conjunct2, THEN conjunct1]
  note a4 = a [THEN conjunct2, THEN conjunct2, THEN conjunct2, THEN conjunct1, THEN mp, OF h3]
  have g1: "True \<or> \<not> cache_contains (news_cache (snd (get_news_feed flaky 0 0 ''realtime'' 1 1 False (init_state 1800)))) (cache_key ''realtime'' 1 1) 5"
    by simp
  have late: "map (\<lambda>(scraper_id, scraper). s_fetch_articles scraper 5 1)
       (matching_scrapers ''realtime'' flaky)
     = map Inr [] @ Inl (Raises (AdapterError ''timeout'')) # map Inr []"
    by (rule flaky_tasks_late) simp
  have errB: "fan_out_merge
             (map (\<lambda>(scraper_id, scraper). s_fetch_articles scraper 5 1)
                  (matching_scrapers ''realtime'' flaky))
             5 5 ''realtime'' 1 1 (init_state 1800) = Inl (AdapterError ''timeout'')"
    unfolding late by (rule fan_out_merge_one_raises)
  have g2: "matching_scrapers ''realtime'' flaky = []
        \<or> fan_out_merge
             (map (\<lambda>(scraper_id, scraper). s_fetch_articles scraper 5 1)
                  (matching_scrapers ''realtime'' flaky))
             5 5 ''realtime'' 1 1 (init_state 1800) = Inl (AdapterError ''timeout'')
          \<and> is_Exception (AdapterError ''timeout'')"
    using errB exc by simp
  from flaky_run obtain feed S1 where
    "get_news_feed flaky 0 0 ''realtime'' 1 1 False (init_state 1800) = (Inr feed, S1)"
    "news_cache S1 = cache_setitem (news_cache (init_state 1800)) (cache_key ''realtime'' 1 1) feed 0"
    by blast
  then have g3: "cache_contains (news_cache (snd (get_news_feed flaky 0 0 ''realtime'' 1 1 False (init_state 1800)))) (cache_key ''realtime'' 1 1) 6"
    by (simp add: cache_contains_setitem init_state_def)
  note b = degraded_pass_leaves_caches_untouched [OF g1 g2, where ?now2.0 = 6 and ?wall2.0 = 6,
      THEN conjunct2, THEN conjunct2, THEN conjunct2, THEN conjunct2, THEN mp, OF g3]
  show ?thesis
    using h1 h2 h3 a1 a2 a3 a4 g1 g2 g3 b by (intro conjI) (simp_all only: simp_thms)
qed

text \<open>
  Claim C9 as stated fails in its last part: after a forced refresh that degrades
  while the entry it bypassed is live, the next call for the key does not fan out
  again. It is answered from the cache with the feed of the earlier pass, and the
  log of adapter calls does not grow.
\<close>

theorem forced_degraded_pass_is_followed_by_cache_hit:
  "fst (get_news_feed flaky 5 5 ''realtime'' 1 1 True (snd (get_news_feed flaky 0 0 ''realtime'' 1 1 False (init_state 1800)))) = Inr (empty_feed ''realtime'' 1 1 5)
   \<and> matching_scrapers ''realtime'' flaky \<noteq> []
   \<and> fetch_log (snd (get_news_feed flaky 6 6 ''realtime'' 1 1 False (snd (get_news_feed flaky 5 5 ''realtime'' 1 1 True (snd (get_news_feed flaky 0 0 ''realtime'' 1 1 False (init_state 1800))))))) = fetch_log (snd (get_news_feed flaky 5 5 ''realtime'' 1 1 True (snd (get_news_feed flaky 0 0 ''realtime'' 1 1 False (init_state 1800)))))
   \<and> fst (get_news_feed flaky 6 6 ''realtime'' 1 1 False (snd (get_news_feed flaky 5 5 ''realtime'' 1 1 True (snd (get_news_feed flaky 0 0 ''realtime'' 1 1 False (init_state 1800)))))) = fst (get_news_feed flaky 0 0 ''realtime'' 1 1 False (init_state 1800))"
proof -
  from flaky_run obtain feed S1 where
    1: "get_news_feed flaky 0 0 ''realtime'' 1 1 False (init_state 1800) = (Inr feed, S1)"
    and 2: "get_news_feed flaky 5 5 ''realtime'' 1 1 True S1
       = (Inr (empty_feed ''realtime'' 1 1 5),
          S1\<lparr>fetch_log := fetch_log S1
                @ map (\<lambda>(scraper_id, scraper). (scraper_id, 1))
                    (matching_scrapers ''realtime'' flaky)\<rparr>)"
    and 3: "get_news_feed flaky 6 6 ''realtime'' 1 1 False
        (S1\<lparr>fetch_log := fetch_log S1
                @ map (\<lambda>(scraper_id, scraper). (scraper_id, 1))
                    (matching_scrapers ''realtime'' flaky)\<rparr>)
       = (Inr feed,
          S1\<lparr>fetch_log := fetch_log S1
                @ map (\<lambda>(scraper_id, scraper). (scraper_id, 1))
                    (matching_scrapers ''realtime'' flaky)\<rparr>)"
    by blast
  have m: "matching_scrapers ''realtime'' flaky \<noteq> []"
    by (simp add: matching_scrapers_def flaky_def)
  show ?thesis
    by (simp add: 1 2 3 m)
qed

section \<open>The distinguished category\<close>

text \<open>
  Claim C1, as the code has it. The category for which no adapter is skipped is
  \<open>"realtime"\<close>: for it the adapters selected are the whole registry, whatever
  their own categories. Any other category, \<open>"all"\<close> included, selects exactly
  the adapters whose own category equals it. With a registry of exactly two adapters that return 5
  articles each, a call for \<open>"realtime"\<close>, page 1, limit 5 that is not answered from
  the cache returns a feed of total 10 with exactly 5 articles, and these are the
  5 most recent: followed by the other 5 they form the combined 10 articles in
  descending order of publication time.
\<close>

theorem realtime_feed_spans_all_adapters:
  "matching_scrapers ''realtime'' scrapers = scrapers
   \<and> ((force_refresh \<or> \<not> cache_contains (news_cache st) (cache_key ''realtime'' 1 5) now)
        \<and> scrapers = [(id1, s1), (id2, s2)]
        \<and> s_fetch_articles s1 now 5 = Inr xs \<and> length xs = 5
        \<and> s_fetch_articles s2 now 5 = Inr ys \<and> length ys = 5
      \<longrightarrow> (\<exists>feed rest.
             fst (get_news_feed scrapers now wall ''realtime'' 1 5 force_refresh st) = Inr feed
           \<and> f_total feed = 10
           \<and> length (f_articles feed) = 5
           \<and> mset (f_articles feed @ rest) = mset (xs @ ys)
           \<and> sorted_wrt (\<lambda>a b. a_published_at b \<le> a_published_at a) (f_articles feed @ rest)))
   \<and> (category \<noteq> ''realtime'' \<longrightarrow>
        matching_scrapers category scrapers
          = filter (\<lambda>(scraper_id, scraper). s_category scraper = category) scrapers)"
proof (intro conjI impI)
  show "matching_scrapers ''realtime'' scrapers = scrapers" by (rule matching_realtime)
next
  assume "category \<noteq> ''realtime''"
  then show "matching_scrapers category scrapers
          = filter (\<lambda>(scraper_id, scraper). s_category scraper = category) scrapers"
    by (simp add: matching_scrapers_def)
next
  assume h: "(force_refresh \<or> \<not> cache_contains (news_cache st) (cache_key ''realtime'' 1 5) now)
        \<and> scrapers = [(id1, s1), (id2, s2)]
        \<and> s_fetch_articles s1 now 5 = Inr xs \<and> length xs = 5
        \<and> s_fetch_articles s2 now 5 = Inr ys \<and> length ys = 5"
  then have fresh: "force_refresh \<or> \<not> cache_contains (news_cache st) (cache_key ''realtime'' 1 5) now"
    and reg: "scrapers = [(id1, s1), (id2, s2)]"
    and xs: "s_fetch_articles s1 now 5 = Inr xs" "length xs = 5"
    and ys: "s_fetch_articles s2 now 5 = Inr ys" "length ys = 5"
    by simp_all
  let ?merged = "sort_reverse a_published_at (xs @ ys)"
  have tasks: "map (\<lambda>(scraper_id, scraper). s_fetch_articles scraper now 5)
                   (matching_scrapers ''realtime'' scrapers) = map Inr [xs, ys]"
    by (simp add: matching_realtime reg xs ys)
  have ne: "[xs, ys] \<noteq> []" by simp
  from get_news_feed_passed [OF fresh tasks ne, where wall = wall]
  obtain feed where
    feed: "feed = \<lparr>f_articles = py_slice (sort_reverse a_published_at (concat [xs, ys]))
                                  ((1 - 1) * 5) ((1 - 1) * 5 + 5),
               f_category = ''realtime'', f_page = 1, f_limit = 5,
               f_total = int (length (concat [xs, ys])), f_last_updated = wall\<rparr>"
    and res: "fst (get_news_feed scrapers now wall ''realtime'' 1 5 force_refresh st) = Inr feed"
    by auto
  have len: "length ?merged = 10"
    by (simp add: sort_reverse_def xs ys)
  have arts: "f_articles feed = take 5 ?merged"
    by (subst feed) (simp add: py_slice_first_page [of 5, simplified])
  have 1: "f_total feed = 10" by (subst feed) (simp add: xs ys)
  have 2: "length (f_articles feed) = 5" by (simp add: arts len)
  have 3: "mset (f_articles feed @ drop 5 ?merged) = mset (xs @ ys)"
    by (simp only: arts append_take_drop_id sort_reverse_mset)
  have 4: "sorted_wrt (\<lambda>a b. a_published_at b \<le> a_published_at a) (f_articles feed @ drop 5 ?merged)"
    by (simp only: arts append_take_drop_id sort_reverse_sorted)
  from res 1 2 3 4 show "\<exists>feed rest.
             fst (get_news_feed scrapers now wall ''realtime'' 1 5 force_refresh st) = Inr feed
           \<and> f_total feed = 10
           \<and> length (f_articles feed) = 5
           \<and> mset (f_articles feed @ rest) = mset (xs @ ys)
           \<and> sorted_wrt (\<lambda>a b. a_published_at b \<le> a_published_at a) (f_articles feed @ rest)"
    by blast
qed

theorem realtime_feed_spans_all_adapters_witness:
  "(False \<or> \<not> cache_contains (news_cache (init_state 1800)) (cache_key ''realtime'' 1 5) 0)
   \<and> mock_scrapers = [(''mock1'', MockScraper ''mock1'' ''Mock Source 1'' ''technology''),
                       (''mock2'', MockScraper ''mock2'' ''Mock Source 2'' ''world'')]
   \<and> s_fetch_articles (MockScraper ''mock1'' ''Mock Source 1'' ''technology'') 0 5
        = Inr (map (mock_article ''mock1'' ''Mock Source 1'' ''technology'' 0) [0..5 - 1])
   \<and> length (map (mock_article ''mock1'' ''Mock Source 1'' ''technology'' 0) [0..5 - 1]) = 5
   \<and> s_fetch_articles (MockScraper ''mock2'' ''Mock Source 2'' ''world'') 0 5
        = Inr (map (mock_article ''mock2'' ''Mock Source 2'' ''world'' 0) [0..5 - 1])
   \<and> length (map (mock_article ''mock2'' ''Mock Source 2'' ''world'' 0) [0..5 - 1]) = 5
   \<and> matching_scrapers ''realtime'' mock_scrapers = mock_scrapers
   \<and> (\<exists>feed. fst (get_news_feed mock_scrapers 0 0 ''realtime'' 1 5 False (init_state 1800)) = Inr feed
           \<and> f_total feed = 10
           \<and> length (f_articles feed) = 5)
   \<and> ''all'' \<noteq> ''realtime''
   \<and> matching_scrapers ''all'' mock_scrapers
        = filter (\<lambda>(scraper_id, scraper). s_category scraper = ''all'') mock_scrapers"
proof -
  let ?xs = "map (mock_article ''mock1'' ''Mock Source 1'' ''technology'' 0) [0..5 - 1]"
  let ?ys = "map (mock_article ''mock2'' ''Mock Source 2'' ''world'' 0) [0..5 - 1]"
  have h1: "False \<or> \<not> cache_contains (news_cache (init_state 1800)) (cache_key ''realtime'' 1 5) 0"
    using init_miss by simp
  have h3: "s_fetch_articles (MockScraper ''mock1'' ''Mock Source 1'' ''technology'') 0 5 = Inr ?xs"
    by (rule MockScraper_fetch)
  have h4: "length ?xs = 5" by simp
  have h5: "s_fetch_articles (MockScraper ''mock2'' ''Mock Source 2'' ''world'') 0 5 = Inr ?ys"
    by (rule MockScraper_fetch)
  have h6: "length ?ys = 5" by simp
  have h9: "''all'' \<noteq> ''realtime''" by simp
  note c = realtime_feed_spans_all_adapters
      [where scrapers = mock_scrapers and force_refresh = False and st = "init_state 1800"
       and now = 0 and wall = 0 and xs = ?xs and ys = ?ys and category = "''all''"
       and ?id1.0 = "''mock1''" and ?id2.0 = "''mock2''"
       and ?s1.0 = "MockScraper ''mock1'' ''Mock Source 1'' ''technology''"
       and ?s2.0 = "MockScraper ''mock2'' ''Mock Source 2'' ''world''"]
  note h7 = c [THEN conjunct1]
  have prem: "(False \<or> \<not> cache_contains (news_cache (init_state 1800)) (cache_key ''realtime'' 1 5) 0)
        \<and> mock_scrapers = [(''mock1'', MockScraper ''mock1'' ''Mock Source 1'' ''technology''),
                            (''mock2'', MockScraper ''mock2'' ''Mock Source 2'' ''world'')]
        \<and> s_fetch_articles (MockScraper ''mock1'' ''Mock Source 1'' ''technology'') 0 5 = Inr ?xs
        \<and> length ?xs = 5
        \<and> s_fetch_articles (MockScraper ''mock2'' ''Mock Source 2'' ''world'') 0 5 = Inr ?ys
        \<and> length ?ys = 5"
    using h1 mock_scrapers_eq h3 h4 h5 h6 by (intro conjI)
  from c [THEN conjunct2, THEN conjunct1, THEN mp, OF prem]
  have h8: "\<exists>feed. fst (get_news_feed mock_scrapers 0 0 ''realtime'' 1 5 False (init_state 1800)) = Inr feed
           \<and> f_total feed = 10
           \<and> length (f_articles feed) = 5"
    by blast
  note h10 = c [THEN conjunct2, THEN conjunct2, THEN mp, OF h9]
  show ?thesis
    using h1 mock_scrapers_eq h3 h4 h5 h6 h7 h8 h9 h10 by (intro conjI) (simp_all only: simp_thms)
qed

text \<open>
  Claim C1 as stated fails: the code knows no category \<open>"all"\<close>. With the two
  adapters of the test suite, each returning 5 articles, a call for \<open>"all"\<close>
  selects no adapter and returns the empty feed, total 0.
\<close>

theorem all_category_matches_no_adapter:
  "mock_scrapers = [(''mock1'', MockScraper ''mock1'' ''Mock Source 1'' ''technology''),
                    (''mock2'', MockScraper ''mock2'' ''Mock Source 2'' ''world'')]
   \<and> length (projr (s_fetch_articles (MockScraper ''mock1'' ''Mock Source 1'' ''technology'') 0 5)) = 5
   \<and> length (projr (s_fetch_articles (MockScraper ''mock2'' ''Mock Source 2'' ''world'') 0 5)) = 5
   \<and> matching_scrapers ''all'' mock_scrapers = []
   \<and> get_news_feed mock_scrapers 0 0 ''all'' 1 5 False (init_state 1800)
        = (Inr (empty_feed ''all'' 1 5 0), init_state 1800)
   \<and> f_articles (empty_feed ''all'' 1 5 0) = []
   \<and> f_total (empty_feed ''all'' 1 5 0) \<noteq> 10"
proof (intro conjI)
  show "mock_scrapers = [(''mock1'', MockScraper ''mock1'' ''Mock Source 1'' ''technology''),
                    (''mock2'', MockScraper ''mock2'' ''Mock Source 2'' ''world'')]"
    by (rule mock_scrapers_eq)
  show "length (projr (s_fetch_articles (MockScraper ''mock1'' ''Mock Source 1'' ''technology'') 0 5)) = 5"
    by (simp add: MockScraper_fetch)
  show "length (projr (s_fetch_articles (MockScraper ''mock2'' ''Mock Source 2'' ''world'') 0 5)) = 5"
    by (simp add: MockScraper_fetch)
  show m: "matching_scrapers ''all'' mock_scrapers = []"
    by (simp add: matching_scrapers_def mock_scrapers_eq)
  show "get_news_feed mock_scrapers 0 0 ''all'' 1 5 False (init_state 1800)
        = (Inr (empty_feed ''all'' 1 5 0), init_state 1800)"
    by (simp add: get_news_feed_def m init_miss)
  show "f_articles (empty_feed ''all'' 1 5 0) = []" by (simp add: empty_feed_def)
  show "f_total (empty_feed ''all'' 1 5 0) \<noteq> 10" by (simp add: empty_feed_def)
qed


section \<open>Article identifiers\<close>

lemma prefixed_id:
  "CHR ''-'' \<notin> set pre \<Longrightarrow>
   has_dash (pre @ ''-'' @ local_id) \<and> split_source_id (pre @ ''-'' @ local_id) = pre"
  by (auto simp: has_dash_def split_source_id_def takeWhile_tail)

lemma map_filter_mem:
  "a \<in> set (List.map_filter f xs) \<Longrightarrow> \<exists>x \<in> set xs. f x = Some a"
  by (auto simp: List.map_filter_def)

lemma py_slice_subset: "set (py_slice xs start stop) \<subseteq> set xs"
proof -
  have "set (take n (drop m xs)) \<subseteq> set xs" for n m
    using set_take_subset [of n "drop m xs"] set_drop_subset [of m xs] by blast
  then show ?thesis by (simp add: py_slice_def Let_def)
qed

lemma set_sort_reverse: "set (sort_reverse key xs) = set xs"
  by (simp add: sort_reverse_def)

lemma caught_Inr_D: "caught e = Inr xs \<Longrightarrow> xs = []"
  by (simp add: caught_def split: if_splits)

lemma hn_article_id:
  "hn_article validates story = Some a \<Longrightarrow>
   \<exists>s n. story = Some s \<and> story_id s = Some n \<and> a_id a = ''hn-'' @ str_int n"
  by (auto simp: hn_article_def split: option.splits if_splits)

lemma hn_fetch_articles_mem:
  assumes "hn_fetch_articles validates upstream limit = Inr articles" and "a \<in> set articles"
  shows "\<exists>k story. hn_item upstream k = Inr (200, story) \<and> hn_article validates story = Some a"
proof (cases "hn_topstories upstream")
  case (Inl e)
  with assms show ?thesis by (auto simp: hn_fetch_articles_def dest: caught_Inr_D)
next
  case (Inr top)
  obtain status ids where top: "top = (status, ids)" by (cases top)
  show ?thesis
  proof (cases "status = 200")
    case False
    with assms Inr top show ?thesis by (simp add: hn_fetch_articles_def)
  next
    case True
    show ?thesis
    proof (cases "gather (map (hn_item upstream) (py_slice ids 0 limit))")
      case (Inl e)
      with assms Inr top True show ?thesis
        by (auto simp: hn_fetch_articles_def Let_def dest: caught_Inr_D)
    next
      case responses: (Inr responses)
      with assms Inr top True have
        "a \<in> set (List.map_filter (hn_article validates)
                    (map snd (filter (\<lambda>response. fst response = 200) responses)))"
        by (auto simp: hn_fetch_articles_def Let_def)
      then obtain story where
        st: "story \<in> set (map snd (filter (\<lambda>response. fst response = 200) responses))"
        and art: "hn_article validates story = Some a"
        using map_filter_mem by fast
      from st have r: "(200, story) \<in> set responses" by auto
      from responses have "map (hn_item upstream) (py_slice ids 0 limit) = map Inr responses"
        by (rule gather_Inr_D)
      then have "Inr (200, story) \<in> set (map (hn_item upstream) (py_slice ids 0 limit))"
        using r by simp
      then obtain k where "hn_item upstream k = Inr (200, story)" by auto
      with art show ?thesis by blast
    qed
  qed
qed

lemma reddit_article_id:
  "reddit_article validates subreddit p = Some a \<Longrightarrow>
   \<exists>i. post_id p = Some i \<and> a_id a = ''reddit-'' @ i"
  by (auto simp: reddit_article_def Let_def split: option.splits if_splits)

lemma reddit_articles_mem:
  "a \<in> set (reddit_articles validates subreddit posts) \<Longrightarrow>
   \<exists>p \<in> set posts. reddit_article validates subreddit p = Some a"
  by (induction posts) (auto split: if_splits option.splits)

lemma fetch_subreddit_mem:
  "fetch_subreddit validates listing n subreddit = Inr articles \<Longrightarrow> a \<in> set articles \<Longrightarrow>
   \<exists>status posts p. listing subreddit n = Inr (status, posts) \<and> p \<in> set posts
      \<and> reddit_article validates subreddit p = Some a"
  by (auto simp: fetch_subreddit_def split: sum.splits if_splits prod.splits
           dest: caught_Inr_D reddit_articles_mem)

lemma reddit_fetch_articles_mem:
  assumes "reddit_fetch_articles validates listing subreddits limit = Inr articles"
    and "a \<in> set articles"
  shows "\<exists>subreddit n status posts p. listing subreddit n = Inr (status, posts)
      \<and> p \<in> set posts \<and> reddit_article validates subreddit p = Some a"
proof (cases "subreddits = []")
  case True
  with assms show ?thesis by (simp add: reddit_fetch_articles_def)
next
  case False
  let ?n = "max (limit div int (length subreddits)) 3"
  show ?thesis
  proof (cases "gather (map (fetch_subreddit validates listing ?n) subreddits)")
    case (Inl e)
    with assms False show ?thesis
      by (auto simp: reddit_fetch_articles_def Let_def dest: caught_Inr_D)
  next
    case (Inr results)
    with assms False have "a \<in> set (py_slice
         (sort_reverse (\<lambda>x. or_0 (a_likes_count x)) (concat results)) 0 limit)"
      by (auto simp: reddit_fetch_articles_def Let_def)
    then have "a \<in> set (concat results)"
      using py_slice_subset set_sort_reverse by fast
    then obtain r where r: "r \<in> set results" "a \<in> set r" by auto
    from Inr have "map (fetch_subreddit validates listing ?n) subreddits = map Inr results"
      by (rule gather_Inr_D)
    then have "Inr r \<in> set (map (fetch_subreddit validates listing ?n) subreddits)"
      using r(1) by simp
    then obtain subreddit where "fetch_subreddit validates listing ?n subreddit = Inr r"
      by auto
    from fetch_subreddit_mem [OF this r(2)] show ?thesis by blast
  qed
qed

lemma github_article_id:
  "github_article md5_hexdigest validates now entry = Some a \<Longrightarrow>
   a_id a = ''github-'' @ md5_hexdigest (a_url a)"
  by (auto simp: github_article_def Let_def generate_article_id_def split: option.splits if_splits)

lemma github_fetch_articles_mem:
  "github_fetch_articles md5_hexdigest validates now page limit = Inr articles \<Longrightarrow>
   a \<in> set articles \<Longrightarrow>
   \<exists>entry. github_article md5_hexdigest validates now entry = Some a"
proof -
  assume r: "github_fetch_articles md5_hexdigest validates now page limit = Inr articles"
    and a: "a \<in> set articles"
  show ?thesis
  proof (cases page)
    case (Inl e)
    with r a show ?thesis by (auto simp: github_fetch_articles_def dest: caught_Inr_D)
  next
    case (Inr body)
    obtain status repos where body: "body = (status, repos)" by (cases body)
    show ?thesis
    proof (cases "status = 200")
      case False
      with r a Inr body show ?thesis by (simp add: github_fetch_articles_def)
    next
      case True
      with r a Inr body have
        "a \<in> set (List.map_filter (github_article md5_hexdigest validates now)
                      (takeWhile (\<lambda>entry. fst entry < limit)
                         (zip (map int [0..<length repos]) repos)))"
        by (auto simp: github_fetch_articles_def)
      then show ?thesis using map_filter_mem by fast
    qed
  qed
qed

lemma raised_Inr_D: "raised r = Inr x \<Longrightarrow> r = Inr x"
  by (simp add: raised_def split: sum.splits)

lemma example_hn_fetch:
  "s_fetch_articles (HackerNewsScraper (\<lambda>story. True) (\<lambda>now. example_hn_upstream) (\<lambda>now article_url. Inr None)) now 50
     = Inr [\<lparr>a_id = ''hn-1'', a_title = ''A story'', a_url = ''https://example.com/story'',
        a_published_at = 0, a_source = ''hacker_news'', a_category = ''technology'',
        a_likes_count = Some 7\<rparr>,
            \<lparr>a_id = ''hn-2'', a_title = ''A story'', a_url = ''https://example.com/story'',
        a_published_at = 0, a_source = ''hacker_news'', a_category = ''technology'',
        a_likes_count = Some 7\<rparr>]"
  by (simp add: HackerNewsScraper_def raised_def hn_fetch_articles_def example_hn_upstream_def
        py_slice_def Let_def List.map_filter_def hn_article_def example_story_def or_0_def
        str_int_1 str_int_2)

lemma example_reddit_fetch:
  "s_fetch_articles (RedditScraper (Some ''worldnews'') [] (\<lambda>post. True)
        (\<lambda>now subreddit n. Inr (200, [example_post])) (\<lambda>now article_url. Inr None)) now 5
     = Inr [\<lparr>a_id = ''reddit-abc'', a_title = ''A post'', a_url = ''https://example.com/post'',
        a_published_at = 0, a_source = ''reddit-worldnews'', a_category = ''world'',
        a_likes_count = Some 3\<rparr>]"
  by (simp add: RedditScraper_def raised_def reddit_fetch_articles_def fetch_subreddit_def
        reddit_article_def example_post_def get_category_for_subreddit_def or_0_def
        sort_reverse_def py_slice_def Let_def)

lemma example_github_fetch:
  "s_fetch_articles (GitHubTrendingScraper (\<lambda>url. url) (\<lambda>row. True) (\<lambda>now. Inr (200, [example_row]))
        (\<lambda>now article_url. Inr None)) 0 5
     = Inr [\<lparr>a_id = ''github-https://github.com/owner/repo'', a_title = ''owner/repo'',
        a_url = ''https://github.com/owner/repo'', a_published_at = 0,
        a_source = ''github_trending'', a_category = ''technology'',
        a_likes_count = Some 1234\<rparr>]"
  by (simp add: GitHubTrendingScraper_def raised_def github_fetch_articles_def
        github_article_def example_row_def generate_article_id_def strip_where_def
        is_space_def is_digit_def int_of_digits_def List.map_filter_def Let_def)

text \<open>
  Claim C2, as the code has it. Every article that \<open>fetch_articles\<close> of an adapter
  returns has an identifier made of a fixed prefix of the adapter (\<open>hn\<close>,
  \<open>reddit\<close>, \<open>github\<close>), the separator \<open>'-'\<close>, and a local id; the token before
  the first separator is that prefix. The local id is the upstream's story id for
  Hacker News, the upstream's post id for Reddit, and the digest of the article's
  URL (\<open>generate_article_id\<close>) for GitHub Trending. The identifier is computed from
  the upstream item alone, so fetching the same item again gives the same
  identifier.
\<close>

theorem adapter_article_ids_carry_prefix:
  "(s_fetch_articles (HackerNewsScraper hn_validates upstream hn_content) now limit = Inr hn_result
      \<longrightarrow> (\<forall>a \<in> set hn_result.
             has_dash (a_id a) \<and> split_source_id (a_id a) = ''hn''
           \<and> (\<exists>k story n. hn_item (upstream now) k = Inr (200, Some story)
                  \<and> story_id story = Some n \<and> a_id a = ''hn-'' @ str_int n)))
   \<and> (s_fetch_articles (RedditScraper subreddit SUBREDDITS reddit_validates listing reddit_content)
         now limit = Inr reddit_result
      \<longrightarrow> (\<forall>a \<in> set reddit_result.
             has_dash (a_id a) \<and> split_source_id (a_id a) = ''reddit''
           \<and> (\<exists>sub m status posts post i. listing now sub m = Inr (status, posts)
                  \<and> post \<in> set posts \<and> post_id post = Some i
                  \<and> a_id a = ''reddit-'' @ i)))
   \<and> (s_fetch_articles (GitHubTrendingScraper md5_hexdigest gh_validates page gh_content)
         now limit = Inr gh_result
      \<longrightarrow> (\<forall>a \<in> set gh_result.
             has_dash (a_id a) \<and> split_source_id (a_id a) = ''github''
           \<and> a_id a = ''github-'' @ md5_hexdigest (a_url a)))"
proof (intro conjI)
  show "s_fetch_articles (HackerNewsScraper hn_validates upstream hn_content) now limit = Inr hn_result
      \<longrightarrow> (\<forall>a \<in> set hn_result.
             has_dash (a_id a) \<and> split_source_id (a_id a) = ''hn''
           \<and> (\<exists>k story n. hn_item (upstream now) k = Inr (200, Some story)
                  \<and> story_id story = Some n \<and> a_id a = ''hn-'' @ str_int n))"
  proof (intro impI ballI)
  fix a
  assume r: "s_fetch_articles (HackerNewsScraper hn_validates upstream hn_content) now limit
               = Inr hn_result" and a: "a \<in> set hn_result"
  from r have "hn_fetch_articles hn_validates (upstream now) limit = Inr hn_result"
    by (simp add: HackerNewsScraper_def raised_Inr_D)
  from hn_fetch_articles_mem [OF this a] obtain k story where
    k: "hn_item (upstream now) k = Inr (200, story)"
    and "hn_article hn_validates story = Some a" by blast
  then obtain s n where s: "story = Some s" "story_id s = Some n"
    and n: "a_id a = ''hn-'' @ str_int n"
    using hn_article_id by blast
  have "has_dash (''hn'' @ ''-'' @ str_int n) \<and> split_source_id (''hn'' @ ''-'' @ str_int n) = ''hn''"
    by (rule prefixed_id) simp
  moreover have "\<exists>k story n. hn_item (upstream now) k = Inr (200, Some story)
                  \<and> story_id story = Some n \<and> a_id a = ''hn-'' @ str_int n"
    using k s n by blast
  ultimately show "has_dash (a_id a) \<and> split_source_id (a_id a) = ''hn''
           \<and> (\<exists>k story n. hn_item (upstream now) k = Inr (200, Some story)
                  \<and> story_id story = Some n \<and> a_id a = ''hn-'' @ str_int n)"
    using n by simp
  qed
next
  show "s_fetch_articles (RedditScraper subreddit SUBREDDITS reddit_validates listing reddit_content)
         now limit = Inr reddit_result
      \<longrightarrow> (\<forall>a \<in> set reddit_result.
             has_dash (a_id a) \<and> split_source_id (a_id a) = ''reddit''
           \<and> (\<exists>sub m status posts post i. listing now sub m = Inr (status, posts)
                  \<and> post \<in> set posts \<and> post_id post = Some i
                  \<and> a_id a = ''reddit-'' @ i))"
  proof (intro impI ballI)
  fix a
  assume r: "s_fetch_articles
               (RedditScraper subreddit SUBREDDITS reddit_validates listing reddit_content)
               now limit = Inr reddit_result" and a: "a \<in> set reddit_result"
  from r have "\<exists>subs. reddit_fetch_articles reddit_validates (listing now) subs limit
                 = Inr reddit_result"
    by (auto simp: RedditScraper_def split: if_splits dest: raised_Inr_D)
  then obtain subs where
    "reddit_fetch_articles reddit_validates (listing now) subs limit = Inr reddit_result"
    by (elim exE)
  from reddit_fetch_articles_mem [OF this a] obtain sub m status posts p where
    l: "listing now sub m = Inr (status, posts)" "p \<in> set posts"
    and "reddit_article reddit_validates sub p = Some a" by blast
  then obtain i where pid: "post_id p = Some i" and i: "a_id a = ''reddit-'' @ i"
    using reddit_article_id by blast
  have "has_dash (''reddit'' @ ''-'' @ i) \<and> split_source_id (''reddit'' @ ''-'' @ i) = ''reddit''"
    by (rule prefixed_id) simp
  moreover have "\<exists>sub m status posts post i. listing now sub m = Inr (status, posts)
                  \<and> post \<in> set posts \<and> post_id post = Some i
                  \<and> a_id a = ''reddit-'' @ i"
    using l pid i by blast
  ultimately show "has_dash (a_id a) \<and> split_source_id (a_id a) = ''reddit''
           \<and> (\<exists>sub m status posts post i. listing now sub m = Inr (status, posts)
                  \<and> post \<in> set posts \<and> post_id post = Some i
                  \<and> a_id a = ''reddit-'' @ i)"
    using i by simp
  qed
next
  show "s_fetch_articles (GitHubTrendingScraper md5_hexdigest gh_validates page gh_content)
         now limit = Inr gh_result
      \<longrightarrow> (\<forall>a \<in> set gh_result.
             has_dash (a_id a) \<and> split_source_id (a_id a) = ''github''
           \<and> a_id a = ''github-'' @ md5_hexdigest (a_url a))"
  proof (intro impI ballI)
  fix a
  assume r: "s_fetch_articles (GitHubTrendingScraper md5_hexdigest gh_validates page gh_content)
               now limit = Inr gh_result" and a: "a \<in> set gh_result"
  from r have "github_fetch_articles md5_hexdigest gh_validates now (page now) limit = Inr gh_result"
    by (simp add: GitHubTrendingScraper_def raised_Inr_D)
  from github_fetch_articles_mem [OF this a] obtain entry where
    "github_article md5_hexdigest gh_validates now entry = Some a" by blast
  then have i: "a_id a = ''github-'' @ md5_hexdigest (a_url a)"
    by (rule github_article_id)
  have "has_dash (''github'' @ ''-'' @ md5_hexdigest (a_url a))
      \<and> split_source_id (''github'' @ ''-'' @ md5_hexdigest (a_url a)) = ''github''"
    by (rule prefixed_id) simp
  with i show "has_dash (a_id a) \<and> split_source_id (a_id a) = ''github''
           \<and> a_id a = ''github-'' @ md5_hexdigest (a_url a)"
    by auto
  qed
qed

theorem adapter_article_ids_carry_prefix_witness:
  "s_fetch_articles (HackerNewsScraper (\<lambda>story. True) (\<lambda>now. example_hn_upstream) (\<lambda>now article_url. Inr None)) 0 50
     = Inr [\<lparr>a_id = ''hn-1'', a_title = ''A story'', a_url = ''https://example.com/story'',
        a_published_at = 0, a_source = ''hacker_news'', a_category = ''technology'',
        a_likes_count = Some 7\<rparr>,
            \<lparr>a_id = ''hn-2'', a_title = ''A story'', a_url = ''https://example.com/story'',
        a_published_at = 0, a_source = ''hacker_news'', a_category = ''technology'',
        a_likes_count = Some 7\<rparr>]
   \<and> \<lparr>a_id = ''hn-1'', a_title = ''A story'', a_url = ''https://example.com/story'',
        a_published_at = 0, a_source = ''hacker_news'', a_category = ''technology'',
        a_likes_count = Some 7\<rparr> \<in> set [\<lparr>a_id = ''hn-1'', a_title = ''A story'', a_url = ''https://example.com/story'',
        a_published_at = 0, a_source = ''hacker_news'', a_category = ''technology'',
        a_likes_count = Some 7\<rparr>,
            \<lparr>a_id = ''hn-2'', a_title = ''A story'', a_url = ''https://example.com/story'',
        a_published_at = 0, a_source = ''hacker_news'', a_category = ''technology'',
        a_likes_count = Some 7\<rparr>]
   \<and> has_dash (a_id \<lparr>a_id = ''hn-1'', a_title = ''A story'', a_url = ''https://example.com/story'',
        a_published_at = 0, a_source = ''hacker_news'', a_category = ''technology'',
        a_likes_count = Some 7\<rparr>)
   \<and> split_source_id (a_id \<lparr>a_id = ''hn-1'', a_title = ''A story'', a_url = ''https://example.com/story'',
        a_published_at = 0, a_source = ''hacker_news'', a_category = ''technology'',
        a_likes_count = Some 7\<rparr>) = ''hn''
   \<and> s_fetch_articles (RedditScraper (Some ''worldnews'') [] (\<lambda>post. True)
        (\<lambda>now subreddit n. Inr (200, [example_post])) (\<lambda>now article_url. Inr None)) 0 5
     = Inr [\<lparr>a_id = ''reddit-abc'', a_title = ''A post'', a_url = ''https://example.com/post'',
        a_published_at = 0, a_source = ''reddit-worldnews'', a_category = ''world'',
        a_likes_count = Some 3\<rparr>]
   \<and> \<lparr>a_id = ''reddit-abc'', a_title = ''A post'', a_url = ''https://example.com/post'',
        a_published_at = 0, a_source = ''reddit-worldnews'', a_category = ''world'',
        a_likes_count = Some 3\<rparr> \<in> set [\<lparr>a_id = ''reddit-abc'', a_title = ''A post'', a_url = ''https://example.com/post'',
        a_published_at = 0, a_source = ''reddit-worldnews'', a_category = ''world'',
        a_likes_count = Some 3\<rparr>]
   \<and> has_dash (a_id \<lparr>a_id = ''reddit-abc'', a_title = ''A post'', a_url = ''https://example.com/post'',
        a_published_at = 0, a_source = ''reddit-worldnews'', a_category = ''world'',
        a_likes_count = Some 3\<rparr>)
   \<and> split_source_id (a_id \<lparr>a_id = ''reddit-abc'', a_title = ''A post'', a_url = ''https://example.com/post'',
        a_published_at = 0, a_source = ''reddit-worldnews'', a_category = ''world'',
        a_likes_count = Some 3\<rparr>) = ''reddit''
   \<and> s_fetch_articles (GitHubTrendingScraper (\<lambda>url. url) (\<lambda>row. True) (\<lambda>now. Inr (200, [example_row]))
        (\<lambda>now article_url. Inr None)) 0 5
     = Inr [\<lparr>a_id = ''github-https://github.com/owner/repo'', a_title = ''owner/repo'',
        a_url = ''https://github.com/owner/repo'', a_published_at = 0,
        a_source = ''github_trending'', a_category = ''technology'',
        a_likes_count = Some 1234\<rparr>]
   \<and> \<lparr>a_id = ''github-https://github.com/owner/repo'', a_title = ''owner/repo'',
        a_url = ''https://github.com/owner/repo'', a_published_at = 0,
        a_source = ''github_trending'', a_category = ''technology'',
        a_likes_count = Some 1234\<rparr> \<in> set [\<lparr>a_id = ''github-https://github.com/owner/repo'', a_title = ''owner/repo'',
        a_url = ''https://github.com/owner/repo'', a_published_at = 0,
        a_source = ''github_trending'', a_category = ''technology'',
        a_likes_count = Some 1234\<rparr>]
   \<and> has_dash (a_id \<lparr>a_id = ''github-https://github.com/owner/repo'', a_title = ''owner/repo'',
        a_url = ''https://github.com/owner/repo'', a_published_at = 0,
        a_source = ''github_trending'', a_category = ''technology'',
        a_likes_count = Some 1234\<rparr>)
   \<and> split_source_id (a_id \<lparr>a_id = ''github-https://github.com/owner/repo'', a_title = ''owner/repo'',
        a_url = ''https://github.com/owner/repo'', a_published_at = 0,
        a_source = ''github_trending'', a_category = ''technology'',
        a_likes_count = Some 1234\<rparr>) = ''github''"
proof -
  let ?a1 = "\<lparr>a_id = ''hn-1'', a_title = ''A story'', a_url = ''https://example.com/story'',
        a_published_at = 0, a_source = ''hacker_news'', a_category = ''technology'',
        a_likes_count = Some 7\<rparr>"
  let ?a2 = "\<lparr>a_id = ''hn-2'', a_title = ''A story'', a_url = ''https://example.com/story'',
        a_published_at = 0, a_source = ''hacker_news'', a_category = ''technology'',
        a_likes_count = Some 7\<rparr>"
  let ?ra = "\<lparr>a_id = ''reddit-abc'', a_title = ''A post'', a_url = ''https://example.com/post'',
        a_published_at = 0, a_source = ''reddit-worldnews'', a_category = ''world'',
        a_likes_count = Some 3\<rparr>"
  let ?ga = "\<lparr>a_id = ''github-https://github.com/owner/repo'', a_title = ''owner/repo'',
        a_url = ''https://github.com/owner/repo'', a_published_at = 0,
        a_source = ''github_trending'', a_category = ''technology'',
        a_likes_count = Some 1234\<rparr>"
  have m1: "?a1 \<in> set [?a1, ?a2]" by simp
  have m2: "?ra \<in> set [?ra]" by simp
  have m3: "?ga \<in> set [?ga]" by simp
  note hn = adapter_article_ids_carry_prefix
      [THEN conjunct1, THEN mp, OF example_hn_fetch [of 0], THEN bspec, OF m1]
  note rd = adapter_article_ids_carry_prefix
      [THEN conjunct2, THEN conjunct1, THEN mp, OF example_reddit_fetch [of 0], THEN bspec, OF m2]
  note gh = adapter_article_ids_carry_prefix
      [THEN conjunct2, THEN conjunct2, THEN mp, OF example_github_fetch, THEN bspec, OF m3]
  show ?thesis
    using example_hn_fetch [of 0] m1 hn [THEN conjunct1] hn [THEN conjunct2, THEN conjunct1]
      example_reddit_fetch [of 0] m2 rd [THEN conjunct1] rd [THEN conjunct2, THEN conjunct1]
      example_github_fetch m3 gh [THEN conjunct1] gh [THEN conjunct2, THEN conjunct1]
    by (intro conjI)
qed

lemma default_registry_keys:
  "map fst default_registry
     = [''hacker_news'', ''github_trending'', ''reddit'', ''reddit_worldnews'',
        ''reddit_technology'', ''reddit_science'', ''reddit_politics'', ''reddit_business'']"
  by (simp add: default_registry_def init_scrapers_def NEWS_SOURCES_def Let_def)

text \<open>
  Claim C2 as stated fails. Hacker News answers with two stories that have the
  same URL and different story ids: the adapter returns two articles with the same
  URL and different identifiers, so the local id is not a hash of the URL. And in
  the registry of the default settings no key matches the token \<open>hn\<close>:
  \<open>get_article\<close> on the identifier of the first of these articles finds no adapter
  and returns the absent value.
\<close>

theorem hn_id_is_not_url_hash_and_is_not_routed:
  "s_fetch_articles (HackerNewsScraper (\<lambda>story. True) (\<lambda>now. example_hn_upstream) (\<lambda>now article_url. Inr None)) 0 50
     = Inr [\<lparr>a_id = ''hn-1'', a_title = ''A story'', a_url = ''https://example.com/story'',
        a_published_at = 0, a_source = ''hacker_news'', a_category = ''technology'',
        a_likes_count = Some 7\<rparr>,
            \<lparr>a_id = ''hn-2'', a_title = ''A story'', a_url = ''https://example.com/story'',
        a_published_at = 0, a_source = ''hacker_news'', a_category = ''technology'',
        a_likes_count = Some 7\<rparr>]
   \<and> a_url \<lparr>a_id = ''hn-1'', a_title = ''A story'', a_url = ''https://example.com/story'',
        a_published_at = 0, a_source = ''hacker_news'', a_category = ''technology'',
        a_likes_count = Some 7\<rparr> = a_url \<lparr>a_id = ''hn-2'', a_title = ''A story'', a_url = ''https://example.com/story'',
        a_published_at = 0, a_source = ''hacker_news'', a_category = ''technology'',
        a_likes_count = Some 7\<rparr>
   \<and> a_id \<lparr>a_id = ''hn-1'', a_title = ''A story'', a_url = ''https://example.com/story'',
        a_published_at = 0, a_source = ''hacker_news'', a_category = ''technology'',
        a_likes_count = Some 7\<rparr> \<noteq> a_id \<lparr>a_id = ''hn-2'', a_title = ''A story'', a_url = ''https://example.com/story'',
        a_published_at = 0, a_source = ''hacker_news'', a_category = ''technology'',
        a_likes_count = Some 7\<rparr>
   \<and> map_of default_registry ''hacker_news''
        = Some (HackerNewsScraper (\<lambda>story. True) (\<lambda>now. example_hn_upstream) (\<lambda>now article_url. Inr None))
   \<and> find (scraper_matches (split_source_id ''hn-1'')) default_registry = None
   \<and> get_article default_registry 0 ''hn-1'' False (init_state 1800)
        = (Inr None, init_state 1800)"
proof -
  have 4: "map_of default_registry ''hacker_news''
        = Some (HackerNewsScraper (\<lambda>story. True) (\<lambda>now. example_hn_upstream) (\<lambda>now article_url. Inr None))"
    by (simp add: default_registry_def init_scrapers_def NEWS_SOURCES_def Let_def)
  have src: "split_source_id ''hn-1'' = ''hn''"
    by (simp add: split_source_id_def)
  have 5: "find (scraper_matches (split_source_id ''hn-1'')) default_registry = None"
    by (simp add: find_matches_keys default_registry_keys src startswith_def)
  have 6: "get_article default_registry 0 ''hn-1'' False (init_state 1800)
        = (Inr None, init_state 1800)"
    using search_scrapers_no_match [OF 5]
    by (simp add: get_article_def cache_contains_def init_state_def has_dash_def)
  show ?thesis
    using example_hn_fetch [of 0] 4 5 6 by (intro conjI) simp_all
qed

end
